theory Spec2Isabelle
  imports Complex_Main "HOL-Library.AList"
begin

chapter \<open>The model\<close>

section \<open>Python values, exceptions and outcomes\<close>

text \<open>
  The library is object-oriented Python: methods mutate \<open>self\<close> in place and signal
  failure by raising. A method is modelled as a function from the state before the call
  to an \<open>outcome\<close>: either it returned (\<open>Done\<close>) or it raised (\<open>Raised\<close>); both carry
  the state as the call left it, because a raise does not undo the mutations made before it.
  Floating-point numbers are modelled as the reals and complex numbers they approximate.
\<close>

datatype error = KeyError | ValueError | TypeError | AttributeError | IndexError | RecursionError

datatype 's outcome = Done 's | Raised error 's

fun state_of :: "'s outcome \<Rightarrow> 's" where
  "state_of (Done s) = s"
| "state_of (Raised e s) = s"

fun raised :: "'s outcome \<Rightarrow> bool" where
  "raised (Done s) = False"
| "raised (Raised e s) = True"

text \<open>Sequencing of two statements: the second runs only if the first returned.\<close>

fun and_then :: "'s outcome \<Rightarrow> ('s \<Rightarrow> 's outcome) \<Rightarrow> 's outcome" where
  "and_then (Done s) f = f s"
| "and_then (Raised e s) f = Raised e s"

text \<open>\<open>for x in xs: body(x)\<close>, over a list that the body does not mutate.\<close>

fun for_each :: "('a \<Rightarrow> 's \<Rightarrow> 's outcome) \<Rightarrow> 'a list \<Rightarrow> 's \<Rightarrow> 's outcome" where
  "for_each body [] s = Done s"
| "for_each body (x # xs) s = and_then (body x s) (for_each body xs)"

text \<open>
  An argument that is either one object or an iterable of objects; the public methods
  test \<open>isinstance(arg, Iterable)\<close>.
\<close>

datatype 'a arg = Single 'a | Iterable "'a list"

section \<open>Channels, nodes and the network graph\<close>

text \<open>
  An \<open>AntennaArray\<close> object is used as a dictionary key and compared by identity (the class
  defines neither \<open>__eq__\<close> nor \<open>__hash__\<close>, and no \<open>__iter__\<close>), so a node is its
  object identity; its mutable attributes live in a store (section on the array).
\<close>

type_synonym node = nat

text \<open>
  Modelled from the spec: the \<open>Channel\<close> base class (channels/awgn.py) is not among the
  sources. A channel binds exactly one transmit and one receive array and has a display
  name; the network code reads \<open>link.name\<close>, \<open>link.tx\<close>, \<open>link.rx\<close> and compares
  channels with \<open>in\<close>, \<open>!=\<close> and \<open>list.remove\<close>, that is by object identity. The field
  \<open>oid\<close> stands for that identity: two channel objects with the same name and endpoints
  are different values. A channel is not an \<open>Iterable\<close>.
\<close>

record channel =
  oid :: nat
  name :: string
  tx :: node
  rx :: node

text \<open>A Python value that is a \<open>str\<close> or a \<open>Channel\<close>: dictionary keys and link arguments.\<close>

datatype pyref = Str string | Obj channel

text \<open>\<open>{"dl": [], "ul": []}\<close>: the inner dictionary of \<open>connections\<close>.\<close>

record adjacency =
  dl :: "channel list"
  ul :: "channel list"

text \<open>
  Python dictionaries keep insertion order; they are association lists maintained with
  \<open>AList.update\<close> (store under a key: in place if present, at the end if new) and
  \<open>AList.delete\<close> (\<open>pop(key, None)\<close>).
\<close>

record network =
  net_name :: string
  links :: "(pyref \<times> channel) list"
  connections :: "(node \<times> adjacency) list"
  target_links :: "channel list"
  target_nodes :: "node list"

definition Network :: "string \<Rightarrow> network" where
  "Network nm = \<lparr>net_name = nm, links = [], connections = [], target_links = [], target_nodes = []\<rparr>"

subsection \<open>Mutating one adjacency list\<close>

text \<open>\<open>self.connections[n]["dl"].append(link)\<close>; the subscript raises KeyError.\<close>

definition dl_append :: "node \<Rightarrow> channel \<Rightarrow> network \<Rightarrow> network outcome" where
  "dl_append n link self =
     (case map_of (connections self) n of
        None \<Rightarrow> Raised KeyError self
      | Some a \<Rightarrow> Done (self\<lparr>connections := AList.update n (a\<lparr>dl := dl a @ [link]\<rparr>) (connections self)\<rparr>))"

definition ul_append :: "node \<Rightarrow> channel \<Rightarrow> network \<Rightarrow> network outcome" where
  "ul_append n link self =
     (case map_of (connections self) n of
        None \<Rightarrow> Raised KeyError self
      | Some a \<Rightarrow> Done (self\<lparr>connections := AList.update n (a\<lparr>ul := ul a @ [link]\<rparr>) (connections self)\<rparr>))"

text \<open>
  \<open>self.connections[n]["dl"].remove(link)\<close>: \<open>list.remove\<close> deletes the first occurrence
  and raises ValueError when there is none.
\<close>

definition dl_remove :: "node \<Rightarrow> channel \<Rightarrow> network \<Rightarrow> network outcome" where
  "dl_remove n link self =
     (case map_of (connections self) n of
        None \<Rightarrow> Raised KeyError self
      | Some a \<Rightarrow>
          if link \<in> set (dl a)
          then Done (self\<lparr>connections := AList.update n (a\<lparr>dl := remove1 link (dl a)\<rparr>) (connections self)\<rparr>)
          else Raised ValueError self)"

definition ul_remove :: "node \<Rightarrow> channel \<Rightarrow> network \<Rightarrow> network outcome" where
  "ul_remove n link self =
     (case map_of (connections self) n of
        None \<Rightarrow> Raised KeyError self
      | Some a \<Rightarrow>
          if link \<in> set (ul a)
          then Done (self\<lparr>connections := AList.update n (a\<lparr>ul := remove1 link (ul a)\<rparr>) (connections self)\<rparr>)
          else Raised ValueError self)"

subsection \<open>Adding nodes and links\<close>

definition add_node :: "node \<Rightarrow> network \<Rightarrow> network" where
  "add_node node self =
     (if node \<notin> fst ` set (connections self)
      then self\<lparr>connections := AList.update node \<lparr>dl = [], ul = []\<rparr> (connections self)\<rparr>
      else self)"

fun add_nodes :: "node arg \<Rightarrow> network \<Rightarrow> network" where
  "add_nodes (Iterable ns) self = fold add_node ns self"
| "add_nodes (Single n) self = add_node n self"

definition add_link :: "channel \<Rightarrow> network \<Rightarrow> network outcome" where
  "add_link link self =
     (if Str (name link) \<notin> fst ` set (links self) \<and> link \<notin> set (map snd (links self))
      then
        and_then
          (dl_append (tx link) link
             (add_nodes (Single (tx link))
                (self\<lparr>links := AList.update (Str (name link)) link (links self)\<rparr>)))
          (\<lambda>s. ul_append (rx link) link (add_nodes (Single (rx link)) s))
      else Done self)"

fun add_links :: "channel arg \<Rightarrow> network \<Rightarrow> network outcome" where
  "add_links (Iterable ls) self = for_each add_link ls self"
| "add_links (Single l) self = add_link l self"

subsection \<open>Removing nodes and links\<close>

text \<open>
  \<open>_remove_node\<close> pops the link mapping under the channel object itself
  (\<open>self.links.pop(link, None)\<close>), where \<open>_remove_link\<close> pops under \<open>link.name\<close>.
  The second loop reads the node's uplink list after the first loop has run.
\<close>

definition remove_node :: "node \<Rightarrow> network \<Rightarrow> network outcome" where
  "remove_node node self =
     (case map_of (connections self) node of
        None \<Rightarrow> Done self
      | Some a \<Rightarrow>
          and_then
            (for_each
               (\<lambda>link s. ul_remove (rx link) link (s\<lparr>links := AList.delete (Obj link) (links s)\<rparr>))
               (dl a) self)
            (\<lambda>s1. case map_of (connections s1) node of
                None \<Rightarrow> Raised KeyError s1
              | Some a1 \<Rightarrow>
                  for_each
                    (\<lambda>link s. dl_remove (tx link) link (s\<lparr>links := AList.delete (Obj link) (links s)\<rparr>))
                    (ul a1) s1))"

text \<open>
  \<open>remove_nodes\<close> tests \<open>nodes.__iter__\<close>: a list has the attribute, a single
  \<open>AntennaArray\<close> does not, and reading it raises AttributeError.
\<close>

fun remove_nodes :: "node arg \<Rightarrow> network \<Rightarrow> network outcome" where
  "remove_nodes (Iterable ns) self = for_each remove_node ns self"
| "remove_nodes (Single n) self = Raised AttributeError self"

definition remove_link :: "pyref \<Rightarrow> network \<Rightarrow> network outcome" where
  "remove_link link self =
     (case (case link of Str s \<Rightarrow> map_of (links self) (Str s) | Obj l \<Rightarrow> Some l) of
        None \<Rightarrow> Raised KeyError self
      | Some l \<Rightarrow>
          and_then
            (dl_remove (tx l) l (self\<lparr>links := AList.delete (Str (name l)) (links self)\<rparr>))
            (ul_remove (rx l) l))"

text \<open>A \<open>str\<close> is an \<open>Iterable\<close>: a single name is traversed character by character.\<close>

fun remove_links :: "pyref arg \<Rightarrow> network \<Rightarrow> network outcome" where
  "remove_links (Iterable ls) self = for_each remove_link ls self"
| "remove_links (Single (Str s)) self = for_each remove_link (map (\<lambda>c. Str [c]) s) self"
| "remove_links (Single (Obj l)) self = remove_link (Obj l) self"

section \<open>Consistency of the link mapping with the adjacency lists\<close>

text \<open>
  The link mapping is consistent with the adjacency structure when every registered link
  has both endpoints among the keys of \<open>connections\<close>, sits in the downlink list of its
  transmitter and of no other node, and in the uplink list of its receiver and of no
  other node.
\<close>

definition graph_consistent :: "network \<Rightarrow> bool" where
  "graph_consistent self =
     list_all (\<lambda>l.
        tx l \<in> fst ` set (connections self) \<and> rx l \<in> fst ` set (connections self)
        \<and> map fst (filter (\<lambda>(n, a). l \<in> set (dl a)) (connections self)) = [tx l]
        \<and> map fst (filter (\<lambda>(n, a). l \<in> set (ul a)) (connections self)) = [rx l])
       (map snd (links self))"

section \<open>Target nodes and links\<close>

text \<open>\<open>list.remove\<close> on one of the target lists.\<close>

definition remove_target_node :: "node \<Rightarrow> network \<Rightarrow> network outcome" where
  "remove_target_node node self =
     (if node \<in> set (target_nodes self)
      then Done (self\<lparr>target_nodes := remove1 node (target_nodes self)\<rparr>)
      else Raised ValueError self)"

definition remove_target_link :: "channel \<Rightarrow> network \<Rightarrow> network outcome" where
  "remove_target_link link self =
     (if link \<in> set (target_links self)
      then Done (self\<lparr>target_links := remove1 link (target_links self)\<rparr>)
      else Raised ValueError self)"

fun add_target_nodes :: "node arg \<Rightarrow> network \<Rightarrow> network" where
  "add_target_nodes (Iterable ns) self =
     fold (\<lambda>node s. (add_node node s)\<lparr>target_nodes := target_nodes (add_node node s) @ [node]\<rparr>) ns self"
| "add_target_nodes (Single n) self =
     (add_node n self)\<lparr>target_nodes := target_nodes (add_node n self) @ [n]\<rparr>"

fun add_target_links :: "channel arg \<Rightarrow> network \<Rightarrow> network outcome" where
  "add_target_links (Iterable ls) self =
     for_each (\<lambda>link s. and_then (add_link link s)
                 (\<lambda>s1. Done (s1\<lparr>target_links := target_links s1 @ [link]\<rparr>))) ls self"
| "add_target_links (Single l) self =
     and_then (add_link l self) (\<lambda>s1. Done (s1\<lparr>target_links := target_links s1 @ [l]\<rparr>))"

fun remove_target_nodes :: "node arg \<Rightarrow> network \<Rightarrow> network outcome" where
  "remove_target_nodes (Iterable ns) self = for_each remove_target_node ns self"
| "remove_target_nodes (Single n) self = remove_target_node n self"

fun remove_target_links :: "channel arg \<Rightarrow> network \<Rightarrow> network outcome" where
  "remove_target_links (Iterable ls) self = for_each remove_target_link ls self"
| "remove_target_links (Single l) self = remove_target_link l self"

section \<open>Networks built through the public methods\<close>

inductive reachable :: "network \<Rightarrow> bool" where
  init: "reachable (Network nm)"
| add_nodes: "reachable s \<Longrightarrow> reachable (add_nodes ns s)"
| add_links: "reachable s \<Longrightarrow> reachable (state_of (add_links ls s))"
| remove_nodes: "reachable s \<Longrightarrow> reachable (state_of (remove_nodes ns s))"
| remove_links: "reachable s \<Longrightarrow> reachable (state_of (remove_links rs s))"
| add_target_nodes: "reachable s \<Longrightarrow> reachable (add_target_nodes ns s)"
| add_target_links: "reachable s \<Longrightarrow> reachable (state_of (add_target_links ls s))"
| remove_target_nodes: "reachable s \<Longrightarrow> reachable (state_of (remove_target_nodes ns s))"
| remove_target_links: "reachable s \<Longrightarrow> reachable (state_of (remove_target_links ls s))"

text \<open>
  Two facts hold of every such network, whatever was removed and whichever call raised:
  a downlink list holds only links transmitted by its node and an uplink list only links
  received by it, and both endpoints of every registered link are keys of \<open>connections\<close>.
\<close>

definition adj_sound :: "network \<Rightarrow> bool" where
  "adj_sound self =
     (\<forall>(n, a) \<in> set (connections self).
        (\<forall>l \<in> set (dl a). tx l = n) \<and> (\<forall>l \<in> set (ul a). rx l = n))"

definition endpoints_present :: "network \<Rightarrow> bool" where
  "endpoints_present self =
     (\<forall>l \<in> set (map snd (links self)).
        tx l \<in> fst ` set (connections self) \<and> rx l \<in> fst ` set (connections self))"

definition graph_inv :: "network \<Rightarrow> bool" where
  "graph_inv self = (adj_sound self \<and> endpoints_present self)"

text \<open>
  Presence of the endpoints: no method removes a key of \<open>connections\<close>, and only
  \<open>_add_link\<close> adds a value to the link mapping, after which it adds both endpoints.
\<close>

definition grows :: "network \<Rightarrow> network \<Rightarrow> bool" where
  "grows s s' =
     (fst ` set (connections s) \<subseteq> fst ` set (connections s')
      \<and> snd ` set (links s') \<subseteq> snd ` set (links s))"

section \<open>Antenna arrays\<close>

text \<open>
  A numpy array: its shape and its elements in row-major order. \<open>squeeze\<close> drops the
  axes of length one, \<open>reshape(-1, 1)\<close> makes a column; neither moves an element.
\<close>

record 'a ndarray =
  shape :: "nat list"
  data :: "'a list"

definition squeeze :: "'a ndarray \<Rightarrow> 'a ndarray" where
  "squeeze x = x\<lparr>shape := filter (\<lambda>n. n \<noteq> 1) (shape x)\<rparr>"

definition reshape_column :: "'a ndarray \<Rightarrow> 'a ndarray" where
  "reshape_column x = x\<lparr>shape := [length (data x), 1]\<rparr>"

type_synonym point = "real \<times> real \<times> real"

text \<open>
  The element type of a coordinate array. The constructor stores \<open>np.array(coordinates)\<close>:
  an int64 array when every coordinate given is a Python int, as in
  \<open>AntennaArray(2, [[0, 0, 0], [1, 0, 0]])\<close>, and a float64 array as soon as one is a float
  (the factories \<open>ula\<close> and \<open>upa\<close> build float64 arrays). Arrays of other element types
  are outside the model.
\<close>

datatype dtype = Int64 | Float64

text \<open>
  The attributes of an \<open>AntennaArray\<close> object. \<open>coordinates\<close> is the array of shape
  \<open>(N, 3)\<close> the class documents, one row per element, and \<open>coordinates_dtype\<close> its
  element type; \<open>arr_name\<close> is the attribute \<open>name\<close>. The constructor does not tie
  \<open>num_antennas\<close> to the number of rows.
\<close>

record antenna_array =
  num_antennas :: int
  coordinates :: "point list"
  coordinates_dtype :: dtype
  weights :: "complex list"
  arr_name :: string
  frequency :: real
  marker :: string
  power :: real
  noise_power :: real

text \<open>\<open>np.finfo(float).tiny\<close>, the smallest positive normal double.\<close>

definition tiny :: real where
  "tiny = 1 / 2 ^ 1022"

text \<open>The property \<open>_noise_power\<close>.\<close>

definition noise_power_safe :: "antenna_array \<Rightarrow> real" where
  "noise_power_safe self = (if noise_power self > 0 then noise_power self else tiny)"

text \<open>
  The property \<open>location\<close>, \<open>np.mean(self.coordinates, axis=0)\<close>, and its setter, which
  adds \<open>location - self.location\<close> to every row with the in-place
  \<open>self.coordinates += delta_location\<close>. The mean is a float64 array, hence so is
  \<open>delta_location\<close>, and numpy does not cast the float64 sum back into an integer array:
  on int64 coordinates the in-place addition raises UFuncTypeError, a TypeError, and
  changes nothing.
\<close>

definition location :: "antenna_array \<Rightarrow> point" where
  "location self =
     (let n = real (length (coordinates self)) in
      (sum_list (map fst (coordinates self)) / n,
       sum_list (map (fst \<circ> snd) (coordinates self)) / n,
       sum_list (map (snd \<circ> snd) (coordinates self)) / n))"

definition set_location :: "point \<Rightarrow> antenna_array \<Rightarrow> antenna_array outcome" where
  "set_location loc self =
     (let delta_location =
            (fst loc - fst (location self),
             fst (snd loc) - fst (snd (location self)),
             snd (snd loc) - snd (snd (location self)))
      in if coordinates_dtype self = Int64 then Raised TypeError self
         else Done (self\<lparr>coordinates :=
                map (\<lambda>(x, y, z). (x + fst delta_location,
                                  y + fst (snd delta_location),
                                  z + snd (snd delta_location)))
                    (coordinates self)\<rparr>))"

text \<open>
  \<open>_match_coordinates\<close>: \<open>np.where((query[:, None] == self.coordinates).all(axis=2))[1]\<close>,
  the indices of the rows equal to a query row, query row by query row.
\<close>

definition match_coordinates :: "point list \<Rightarrow> antenna_array \<Rightarrow> nat list" where
  "match_coordinates query self =
     concat (map (\<lambda>q. filter (\<lambda>j. coordinates self ! j = q) [0..<length (coordinates self)]) query)"

text \<open>\<open>np.delete(xs, indices, axis=0)\<close>; an index past the end raises IndexError.\<close>

definition np_delete :: "nat list \<Rightarrow> 'a list \<Rightarrow> error + 'a list" where
  "np_delete indices xs =
     (if list_ex (\<lambda>i. length xs \<le> i) indices then Inl IndexError
      else Inr (nths xs (- set indices)))"

text \<open>
  The two functions local to \<open>remove_elements\<close>, with the parameters
  \<open>(self, coordinates)\<close> and \<open>(self, indices)\<close> they are declared with.
\<close>

definition remove_elements_by_idx :: "antenna_array \<Rightarrow> nat list \<Rightarrow> antenna_array outcome" where
  "remove_elements_by_idx self indices =
     (case np_delete indices (coordinates self) of
        Inl e \<Rightarrow> Raised e self
      | Inr cs \<Rightarrow>
         (case np_delete indices (weights self) of
            Inl e \<Rightarrow> Raised e (self\<lparr>coordinates := cs\<rparr>)
          | Inr ws \<Rightarrow>
              Done (self\<lparr>coordinates := cs, weights := ws,
                         num_antennas := num_antennas self - int (length indices)\<rparr>)))"

definition remove_elements_by_coord :: "antenna_array \<Rightarrow> point list \<Rightarrow> antenna_array outcome" where
  "remove_elements_by_coord self query = remove_elements_by_idx self (match_coordinates query self)"

text \<open>
  \<open>remove_elements\<close> calls them as \<open>_remove_elements_by_coord(coordinates)\<close> and
  \<open>_remove_elements_by_idx(indices)\<close>: one argument for two positional parameters.
  They are plain local functions, not methods, so nothing is bound to \<open>self\<close> and
  Python raises TypeError (a required positional argument is missing) before either
  body runs.
\<close>

definition remove_elements ::
    "point list option \<Rightarrow> nat list option \<Rightarrow> antenna_array \<Rightarrow> antenna_array outcome" where
  "remove_elements coords indices self =
     (case coords of
        Some c \<Rightarrow> Raised TypeError self
      | None \<Rightarrow> (case indices of Some i \<Rightarrow> Raised TypeError self | None \<Rightarrow> Raised ValueError self))"

text \<open>
  The expression both back ends evaluate,
  \<open>exp(1j * 2 * pi * (dx * sin(az) * cos(el) + dy * cos(az) * cos(el) + dz * sin(el)))\<close>,
  with \<open>az\<close> broadcast along axis 0, \<open>el\<close> along axis 1 and the elements along axis 2;
  the result is listed in row-major order.
\<close>

definition response_data ::
    "real list \<Rightarrow> real list \<Rightarrow> real list \<Rightarrow> real list \<Rightarrow> real list \<Rightarrow> complex list" where
  "response_data dx dy dz az el =
     concat (map (\<lambda>a. concat (map (\<lambda>e.
        map (\<lambda>(x, y, z).
               exp (\<i> * 2 * complex_of_real pi
                    * complex_of_real (x * sin a * cos e + y * cos a * cos e + z * sin e)))
            (zip dx (zip dy dz))) el)) az)"

text \<open>
  \<open>get_array_response(az, el, torch_device, return_tensor)\<close> and its PyTorch variant.
  \<open>az\<close> and \<open>el\<close> are flattened by the code, so they are lists (a scalar is a list of
  one). Reading \<open>self.coordinates[0, 0]\<close> of an array without rows raises IndexError.
  The results of the two variants differ in their container only.
\<close>

definition get_array_response_torch ::
    "real list \<Rightarrow> real list \<Rightarrow> string \<Rightarrow> bool \<Rightarrow> antenna_array \<Rightarrow> error + complex ndarray" where
  "get_array_response_torch az el device return_tensor self =
     (case coordinates self of
        [] \<Rightarrow> Inl IndexError
      | c0 # _ \<Rightarrow>
          let dx = map (\<lambda>c. fst c - fst c0) (coordinates self);
              dy = map (\<lambda>c. fst (snd c) - fst (snd c0)) (coordinates self);
              dz = map (\<lambda>c. snd (snd c) - snd (snd c0)) (coordinates self);
              array_response = squeeze
                \<lparr>shape = [length az, length el, length (coordinates self)],
                 data = response_data dx dy dz az el\<rparr>
          in Inr (if num_antennas self = 1 then reshape_column array_response else array_response))"

definition get_array_response ::
    "real list \<Rightarrow> real list \<Rightarrow> string option \<Rightarrow> bool \<Rightarrow> antenna_array \<Rightarrow> error + complex ndarray" where
  "get_array_response az el torch_device return_tensor self =
     (case torch_device of
        Some device \<Rightarrow> get_array_response_torch az el device return_tensor self
      | None \<Rightarrow>
         (case coordinates self of
            [] \<Rightarrow> Inl IndexError
          | c0 # _ \<Rightarrow>
              let dx = map (\<lambda>c. fst c - fst c0) (coordinates self);
                  dy = map (\<lambda>c. fst (snd c) - fst (snd c0)) (coordinates self);
                  dz = map (\<lambda>c. snd (snd c) - snd (snd c0)) (coordinates self);
                  array_response = squeeze
                    \<lparr>shape = [length az, length el, length (coordinates self)],
                     data = response_data dx dy dz az el\<rparr>
              in Inr (if num_antennas self = 1 then reshape_column array_response else array_response)))"

section \<open>Link metrics of the network\<close>

text \<open>
  Modelled from the spec: the derived metrics of a channel are properties of the
  \<open>Channel\<close> base class, which is not among the sources. The network code only reads
  them (\<open>link.rx_power\<close>, \<open>link.snr_db\<close>, ...), so the values a channel object shows at
  the time of the call are a parameter \<open>P\<close> of every accessor.
\<close>

record chan_props =
  ch_rx_power :: real
  ch_bf_gain :: real
  ch_bf_gain_db :: real
  ch_signal_power :: real
  ch_signal_power_db :: real
  ch_bf_noise_power :: real
  ch_bf_noise_power_db :: real
  ch_snr :: real
  ch_snr_db :: real
  ch_snr_upper_bound :: real
  ch_snr_upper_bound_db :: real

text \<open>What an accessor returns: a number, a dictionary keyed by links or names, or a list.\<close>

datatype pyval = Num real | Dict "(pyref \<times> pyval) list" | PyList "pyval list"

text \<open>A comprehension evaluates its elements in order; the first raise ends it.\<close>

fun sequence :: "(error + 'a) list \<Rightarrow> error + 'a list" where
  "sequence [] = Inr []"
| "sequence (x # xs) =
     (case x of
        Inl e \<Rightarrow> Inl e
      | Inr v \<Rightarrow> (case sequence xs of Inl e \<Rightarrow> Inl e | Inr vs \<Rightarrow> Inr (v # vs)))"

definition dict_comp :: "pyref list \<Rightarrow> (error + pyval) list \<Rightarrow> error + pyval" where
  "dict_comp ks vals =
     (case sequence vals of
        Inl e \<Rightarrow> Inl e
      | Inr vs \<Rightarrow> Inr (Dict (fold (\<lambda>(k, v). AList.update k v) (zip ks vs) [])))"

definition list_comp :: "(error + pyval) list \<Rightarrow> error + pyval" where
  "list_comp vals = (case sequence vals of Inl e \<Rightarrow> Inl e | Inr vs \<Rightarrow> Inr (PyList vs))"

text \<open>\<open>if isinstance(link, str): link = self.links[link]\<close>\<close>

fun lookup_link :: "network \<Rightarrow> pyref \<Rightarrow> error + channel" where
  "lookup_link self (Str s) =
     (case map_of (links self) (Str s) of None \<Rightarrow> Inl KeyError | Some l \<Rightarrow> Inr l)"
| "lookup_link self (Obj l) = Inr l"

text \<open>
  \<open>snr\<close> tests \<open>isinstance(link, Iterable)\<close> before \<open>isinstance(link, str)\<close>. A \<open>str\<close> is
  an \<open>Iterable\<close> whose elements are one-character \<open>str\<close>s, so a name is traversed and
  each character is passed to \<open>snr\<close> again. The first argument is the number of nested
  calls the interpreter still allows (its recursion limit); at 0 the call raises
  RecursionError.
\<close>

fun snr :: "nat \<Rightarrow> (channel \<Rightarrow> chan_props) \<Rightarrow> network \<Rightarrow> pyref arg option \<Rightarrow> bool \<Rightarrow> error + pyval" where
  "snr 0 P self link db = Inl RecursionError"
| "snr (Suc d) P self None db =
     dict_comp (map (Obj \<circ> snd) (links self))
       (map (\<lambda>lk. snr d P self (Some (Single (Obj lk))) db) (map snd (links self)))"
| "snr (Suc d) P self (Some (Iterable ls)) db =
     list_comp (map (\<lambda>lk. snr d P self (Some (Single lk)) db) ls)"
| "snr (Suc d) P self (Some (Single (Str s))) db =
     list_comp (map (\<lambda>c. snr d P self (Some (Single (Str [c]))) db) s)"
| "snr (Suc d) P self (Some (Single (Obj l))) db =
     Inr (Num (if db then ch_snr_db (P l) else ch_snr (P l)))"

text \<open>
  The other accessors look a name up first. Their recursion is at most two calls deep;
  the depth \<open>d\<close> is what they hand to \<open>snr\<close>.
\<close>

function rx_power :: "(channel \<Rightarrow> chan_props) \<Rightarrow> network \<Rightarrow> pyref arg option \<Rightarrow> error + pyval" where
  "rx_power P self None =
     dict_comp (map (Obj \<circ> snd) (links self))
       (map (\<lambda>lk. rx_power P self (Some (Single (Obj lk)))) (map snd (links self)))"
| "rx_power P self (Some (Iterable ls)) =
     dict_comp ls (map (\<lambda>lk. rx_power P self (Some (Single lk))) ls)"
| "rx_power P self (Some (Single r)) =
     (case lookup_link self r of Inl e \<Rightarrow> Inl e | Inr l \<Rightarrow> Inr (Num (ch_rx_power (P l))))"
  by pat_completeness auto

termination
  by (relation "measure (\<lambda>(P, self, a). case a of Some (Single r) \<Rightarrow> 0 | _ \<Rightarrow> 1)") auto

function bf_gain :: "nat \<Rightarrow> (channel \<Rightarrow> chan_props) \<Rightarrow> network \<Rightarrow> pyref arg option \<Rightarrow> bool \<Rightarrow> error + pyval" where
  "bf_gain d P self None db =
     dict_comp (map (Obj \<circ> snd) (links self))
       (map (\<lambda>lk. bf_gain d P self (Some (Single (Obj lk))) db) (map snd (links self)))"
| "bf_gain d P self (Some (Iterable ls)) db =
     dict_comp ls (map (\<lambda>lk. snr d P self (Some (Single lk)) db) ls)"
| "bf_gain d P self (Some (Single r)) db =
     (case lookup_link self r of
        Inl e \<Rightarrow> Inl e
      | Inr l \<Rightarrow> Inr (Num (if db then ch_bf_gain_db (P l) else ch_bf_gain (P l))))"
  by pat_completeness auto

termination
  by (relation "measure (\<lambda>(d, P, self, a, db). case a of Some (Single r) \<Rightarrow> 0 | _ \<Rightarrow> 1)") auto

function signal_power :: "nat \<Rightarrow> (channel \<Rightarrow> chan_props) \<Rightarrow> network \<Rightarrow> pyref arg option \<Rightarrow> bool \<Rightarrow> error + pyval" where
  "signal_power d P self None db =
     dict_comp (map (Obj \<circ> snd) (links self))
       (map (\<lambda>lk. signal_power d P self (Some (Single (Obj lk))) db) (map snd (links self)))"
| "signal_power d P self (Some (Iterable ls)) db =
     dict_comp ls (map (\<lambda>lk. snr d P self (Some (Single lk)) db) ls)"
| "signal_power d P self (Some (Single r)) db =
     (case lookup_link self r of
        Inl e \<Rightarrow> Inl e
      | Inr l \<Rightarrow> Inr (Num (if db then ch_signal_power_db (P l) else ch_signal_power (P l))))"
  by pat_completeness auto

termination
  by (relation "measure (\<lambda>(d, P, self, a, db). case a of Some (Single r) \<Rightarrow> 0 | _ \<Rightarrow> 1)") auto

function bf_noise_power :: "nat \<Rightarrow> (channel \<Rightarrow> chan_props) \<Rightarrow> network \<Rightarrow> pyref arg option \<Rightarrow> bool \<Rightarrow> error + pyval" where
  "bf_noise_power d P self None db =
     dict_comp (map (Obj \<circ> snd) (links self))
       (map (\<lambda>lk. bf_noise_power d P self (Some (Single (Obj lk))) db) (map snd (links self)))"
| "bf_noise_power d P self (Some (Iterable ls)) db =
     dict_comp ls (map (\<lambda>lk. snr d P self (Some (Single lk)) db) ls)"
| "bf_noise_power d P self (Some (Single r)) db =
     (case lookup_link self r of
        Inl e \<Rightarrow> Inl e
      | Inr l \<Rightarrow> Inr (Num (if db then ch_bf_noise_power_db (P l) else ch_bf_noise_power (P l))))"
  by pat_completeness auto

termination
  by (relation "measure (\<lambda>(d, P, self, a, db). case a of Some (Single r) \<Rightarrow> 0 | _ \<Rightarrow> 1)") auto

function snr_upper_bound :: "(channel \<Rightarrow> chan_props) \<Rightarrow> network \<Rightarrow> pyref arg option \<Rightarrow> bool \<Rightarrow> error + pyval" where
  "snr_upper_bound P self None db =
     dict_comp (map (Obj \<circ> snd) (links self))
       (map (\<lambda>lk. snr_upper_bound P self (Some (Single (Obj lk))) db) (map snd (links self)))"
| "snr_upper_bound P self (Some (Iterable ls)) db =
     list_comp (map (\<lambda>lk. snr_upper_bound P self (Some (Single lk)) db) ls)"
| "snr_upper_bound P self (Some (Single r)) db =
     (case lookup_link self r of
        Inl e \<Rightarrow> Inl e
      | Inr l \<Rightarrow> Inr (Num (if db then ch_snr_upper_bound_db (P l) else ch_snr_upper_bound (P l))))"
  by pat_completeness auto

termination
  by (relation "measure (\<lambda>(P, self, a, db). case a of Some (Single r) \<Rightarrow> 0 | _ \<Rightarrow> 1)") auto

subsection \<open>Interference\<close>

text \<open>
  The loop of \<open>interference\<close>: \<open>interference += self.signal_power(ul, db=False)\<close> for
  every uplink \<open>ul != link\<close> of the receiver, starting from 0. Adding anything but a
  number to the sum is a TypeError.
\<close>

fun interference_loop ::
    "nat \<Rightarrow> (channel \<Rightarrow> chan_props) \<Rightarrow> network \<Rightarrow> channel \<Rightarrow> channel list \<Rightarrow> real \<Rightarrow> error + real" where
  "interference_loop d P self link [] acc = Inr acc"
| "interference_loop d P self link (u # us) acc =
     (if u \<noteq> link
      then (case signal_power d P self (Some (Single (Obj u))) False of
              Inl e \<Rightarrow> Inl e
            | Inr (Num x) \<Rightarrow> interference_loop d P self link us (acc + x)
            | Inr _ \<Rightarrow> Inl TypeError)
      else interference_loop d P self link us acc)"

function interference :: "nat \<Rightarrow> (channel \<Rightarrow> chan_props) \<Rightarrow> network \<Rightarrow> pyref arg option \<Rightarrow> bool \<Rightarrow> error + pyval" where
  "interference d P self None db =
     dict_comp (map (Obj \<circ> snd) (links self))
       (map (\<lambda>lk. interference d P self (Some (Single (Obj lk))) db) (map snd (links self)))"
| "interference d P self (Some (Iterable ls)) db = Inl AttributeError"
| "interference d P self (Some (Single r)) db =
     (case lookup_link self r of
        Inl e \<Rightarrow> Inl e
      | Inr link \<Rightarrow>
         (case map_of (connections self) (rx link) of
            None \<Rightarrow> Inl KeyError
          | Some a \<Rightarrow>
             (case interference_loop d P self link (ul a) 0 of
                Inl e \<Rightarrow> Inl e
              | Inr i \<Rightarrow> Inr (Num (if db then 10 * log 10 (i + tiny) else i)))))"
  by pat_completeness auto

termination
  by (relation "measure (\<lambda>(d, P, self, a, db). case a of Some (Single r) \<Rightarrow> 0 | _ \<Rightarrow> 1)") auto

subsection \<open>The INR upper bound\<close>

text \<open>
  \<open>inr_upper_bound\<close> divides by \<open>link.rx.noise_power_lin\<close>. The class \<open>AntennaArray\<close>
  sets the attributes \<open>num_antennas\<close>, \<open>coordinates\<close>, \<open>weights\<close>, \<open>name\<close>,
  \<open>frequency\<close>, \<open>_config\<close>, \<open>marker\<close>, \<open>power\<close> and \<open>noise_power\<close> and defines the
  properties \<open>N\<close>, \<open>Nr\<close>, \<open>Nt\<close>, \<open>_noise_power\<close>, \<open>power_dbm\<close>, \<open>noise_power_dbm\<close>,
  \<open>amp\<close>, \<open>phase\<close>, \<open>array_center\<close>, \<open>location\<close> and \<open>diameter\<close>; it has no
  \<open>noise_power_lin\<close> and no \<open>__getattr__\<close>, so reading that attribute raises.
\<close>

definition noise_power_lin :: "antenna_array \<Rightarrow> error + real" where
  "noise_power_lin self = Inl AttributeError"

fun inr_upper_bound_loop ::
    "(channel \<Rightarrow> chan_props) \<Rightarrow> (node \<Rightarrow> antenna_array) \<Rightarrow> channel \<Rightarrow> channel list \<Rightarrow> real \<Rightarrow> real" where
  "inr_upper_bound_loop P A link [] sig_pow_nb = sig_pow_nb"
| "inr_upper_bound_loop P A link (u # us) sig_pow_nb =
     (if u \<noteq> link
      then inr_upper_bound_loop P A link us
             (sig_pow_nb + ch_rx_power (P u) * real_of_int (num_antennas (A (tx u)))
                                            * real_of_int (num_antennas (A (rx u))))
      else inr_upper_bound_loop P A link us sig_pow_nb)"

function inr_upper_bound ::
    "(channel \<Rightarrow> chan_props) \<Rightarrow> (node \<Rightarrow> antenna_array) \<Rightarrow> network \<Rightarrow> pyref arg option \<Rightarrow> bool \<Rightarrow> error + pyval" where
  "inr_upper_bound P A self None db =
     dict_comp (map (Obj \<circ> snd) (links self))
       (map (\<lambda>lk. inr_upper_bound P A self (Some (Single (Obj lk))) db) (map snd (links self)))"
| "inr_upper_bound P A self (Some (Iterable ls)) db = Inl AttributeError"
| "inr_upper_bound P A self (Some (Single r)) db =
     (case lookup_link self r of
        Inl e \<Rightarrow> Inl e
      | Inr link \<Rightarrow>
         (case map_of (connections self) (rx link) of
            None \<Rightarrow> Inl KeyError
          | Some a \<Rightarrow>
             (let sig_pow_nb = inr_upper_bound_loop P A link (ul a) 0 in
              case noise_power_lin (A (rx link)) of
                Inl e \<Rightarrow> Inl e
              | Inr n \<Rightarrow>
                  Inr (Num (if db then 10 * log 10 (sig_pow_nb / n + tiny) else sig_pow_nb / n)))))"
  by pat_completeness auto

termination
  by (relation "measure (\<lambda>(P, A, self, a, db). case a of Some (Single r) \<Rightarrow> 0 | _ \<Rightarrow> 1)") auto

section \<open>The ray-cluster channel\<close>

fun bind_result :: "error + 'a \<Rightarrow> ('a \<Rightarrow> error + 'b) \<Rightarrow> error + 'b" where
  "bind_result (Inl e) f = Inl e"
| "bind_result (Inr v) f = f v"

text \<open>
  The per-cluster ray counts \<open>self._n_rays\<close>, read through the property \<open>n_rays\<close>: a
  numpy vector, or the Python list or tuple the caller passed. A count is a natural
  number.
\<close>

datatype ray_counts = Ndarray "nat list" | Sequence "nat list"

record ray_cluster_channel =
  n_clusters :: nat
  n_rays :: ray_counts
  cluster_angle_distrubution :: string
  ray_angle_distribution :: string
  ray_std :: real
  angle_bounds :: "real \<times> real"
  device :: "string option"

text \<open>
  The constructor and the setter of \<open>n_rays\<close> store \<open>np.repeat(n_rays, n_clusters)\<close> when
  \<open>n_rays\<close> is an \<open>int\<close>, and otherwise the object given, as it is.
\<close>

datatype n_rays_arg = IntCount nat | Counts ray_counts

definition set_n_rays :: "n_rays_arg \<Rightarrow> ray_cluster_channel \<Rightarrow> ray_cluster_channel" where
  "set_n_rays arg self =
     self\<lparr>n_rays := (case arg of
                       IntCount k \<Rightarrow> Ndarray (replicate (n_clusters self) k)
                     | Counts given \<Rightarrow> given)\<rparr>"

text \<open>
  The property \<open>total_n_rays\<close>, \<open>self.n_rays.sum()\<close>: the sum of a numpy vector; a list
  or a tuple has no method \<open>sum\<close>.
\<close>

definition total_n_rays :: "ray_cluster_channel \<Rightarrow> error + nat" where
  "total_n_rays self =
     (case n_rays self of
        Ndarray counts \<Rightarrow> Inr (sum_list counts)
      | Sequence counts \<Rightarrow> Inl AttributeError)"

text \<open>
  \<open>x.reshape(*angles.shape, -1)\<close>: the last axis takes what is left; numpy raises
  ValueError when the size is not a multiple of the given axes or these multiply to 0.
\<close>

definition reshape_like :: "nat list \<Rightarrow> 'a ndarray \<Rightarrow> error + 'a ndarray" where
  "reshape_like shp x =
     (let m = prod_list shp in
      if m = 0 \<or> length (data x) mod m \<noteq> 0 then Inl ValueError
      else Inr (x\<lparr>shape := shp @ [length (data x) div m]\<rparr>))"

text \<open>
  \<open>np.einsum("bn,bnr,bnt->brt", g, a, c)\<close> for operands that agree on the axes \<open>b\<close> and
  \<open>n\<close>: entry \<open>(b, r, t)\<close> is the sum over \<open>n\<close> of \<open>g[b,n] * a[b,n,r] * c[b,n,t]\<close>.
  (numpy also broadcasts an axis of length one against a longer one; the arrays that
  \<open>realize\<close> builds never need it and the model does not cover it.)
\<close>

definition einsum_bn_bnr_bnt ::
    "complex ndarray \<Rightarrow> complex ndarray \<Rightarrow> complex ndarray \<Rightarrow> error + complex ndarray" where
  "einsum_bn_bnr_bnt g a c =
     (if length (shape g) = 2 \<and> length (shape a) = 3 \<and> length (shape c) = 3
         \<and> shape a ! 0 = shape g ! 0 \<and> shape c ! 0 = shape g ! 0
         \<and> shape a ! 1 = shape g ! 1 \<and> shape c ! 1 = shape g ! 1
      then
        (let b = shape g ! 0; n = shape g ! 1; r = shape a ! 2; t = shape c ! 2 in
         Inr \<lparr>shape = [b, r, t],
              data = concat (map (\<lambda>bi. concat (map (\<lambda>ri. map (\<lambda>ti.
                        sum_list (map (\<lambda>ni. data g ! (bi * n + ni)
                                            * data a ! ((bi * n + ni) * r + ri)
                                            * data c ! ((bi * n + ni) * t + ti)) [0..<n]))
                      [0..<t]) [0..<r])) [0..<b])\<rparr>)
      else Inl ValueError)"

text \<open>
  \<open>generate_channel_matrix\<close> with \<open>use_torch=False\<close>, as \<open>realize\<close> calls it. The array
  responses are taken at elevation 0 with \<open>self.device\<close> as the third positional argument;
  the last statement is \<open>H /= np.sqrt(self.total_n_rays)\<close>.
\<close>

definition generate_channel_matrix ::
    "ray_cluster_channel \<Rightarrow> antenna_array \<Rightarrow> antenna_array
       \<Rightarrow> real ndarray \<Rightarrow> real ndarray \<Rightarrow> complex ndarray \<Rightarrow> error + complex ndarray" where
  "generate_channel_matrix self tx_array rx_array aoa aod gain =
     bind_result (get_array_response (data aoa) [0] (device self) False rx_array) (\<lambda>arx.
     bind_result (get_array_response (data aod) [0] (device self) False tx_array) (\<lambda>atx.
     bind_result (reshape_like (shape aoa) arx) (\<lambda>arx.
     bind_result (reshape_like (shape aod) atx) (\<lambda>atx.
     bind_result (einsum_bn_bnr_bnt gain arx (atx\<lparr>data := map cnj (data atx)\<rparr>)) (\<lambda>H.
     bind_result (total_n_rays self) (\<lambda>total_rays.
     Inr (H\<lparr>data := map (\<lambda>h. h / complex_of_real (sqrt (real total_rays))) (data H)\<rparr>)))))))"

subsection \<open>The synthesis as the specification words it\<close>





definition response_vector :: "antenna_array \<Rightarrow> real \<Rightarrow> complex list" where
  "response_vector arr angle =
     (case get_array_response [angle] [0] None False arr of Inr x \<Rightarrow> data x | Inl e \<Rightarrow> [])"




section \<open>Realizing channels and moving a node\<close>

text \<open>
  Modelled from the spec: the mutable attributes of a channel object that the absent base
  class holds, the last realized matrix \<open>H\<close> (absent until the first \<open>realize\<close>) and the
  state of the random stream private to the channel.
\<close>

record chan_state =
  chan_H :: "complex ndarray option"
  chan_rng :: nat

text \<open>
  The simulation state: the graph, the store of array objects and the store of channel
  objects.
\<close>

record world =
  net :: network
  arrays :: "node \<Rightarrow> antenna_array"
  chans :: "channel \<Rightarrow> chan_state"

text \<open>
  Modelled from the spec: \<open>link.realize()\<close> is dispatched on the channel's class, and
  the base class and the other channel classes are not among the sources. By the channel
  contract, \<open>realize\<close> recomputes and stores the matrix of its own object from the
  geometry and weights of its two arrays and its own random state;
  \<open>RayClusterChannel.realize\<close> assigns attributes of \<open>self\<close> only. It is a parameter
  \<open>realize\<close> of the network methods: from the arrays and the channel to a change of that
  channel's own state.
\<close>

type_synonym realize_method = "(node \<Rightarrow> antenna_array) \<Rightarrow> channel \<Rightarrow> chan_state \<Rightarrow> chan_state outcome"

definition realize_link :: "realize_method \<Rightarrow> channel \<Rightarrow> world \<Rightarrow> world outcome" where
  "realize_link realize link w =
     (case realize (arrays w) link (chans w link) of
        Done st \<Rightarrow> Done (w\<lparr>chans := (chans w)(link := st)\<rparr>)
      | Raised e st \<Rightarrow> Raised e (w\<lparr>chans := (chans w)(link := st)\<rparr>))"

text \<open>\<open>Network.realize\<close>: every link of the mapping, in its order.\<close>

definition realize_network :: "realize_method \<Rightarrow> world \<Rightarrow> world outcome" where
  "realize_network realize w = for_each (realize_link realize) (map snd (links (net w))) w"

text \<open>
  The property \<open>nodes\<close>: \<open>{key.name: key for key in self.connections.keys()}\<close>; of two
  nodes with one name the later key stays.
\<close>

definition nodes :: "(node \<Rightarrow> antenna_array) \<Rightarrow> network \<Rightarrow> (string \<times> node) list" where
  "nodes A self = fold (\<lambda>key d. AList.update (arr_name (A key)) key d) (map fst (connections self)) []"

datatype node_ref = NodeName string | NodeObj node

text \<open>\<open>if isinstance(node, str): node = self.nodes[node]\<close>\<close>

fun lookup_node :: "world \<Rightarrow> node_ref \<Rightarrow> node option" where
  "lookup_node w (NodeName s) = map_of (nodes (arrays w) (net w)) s"
| "lookup_node w (NodeObj n) = Some n"

text \<open>
  \<open>move_node\<close>: the location is set before \<open>self.connections[node]\<close> is read, so a node
  that is no key is moved and then KeyError is raised; and when the setter raises, no
  channel is realized.
\<close>

definition move_node :: "realize_method \<Rightarrow> node_ref \<Rightarrow> point \<Rightarrow> world \<Rightarrow> world outcome" where
  "move_node realize node new_location w =
     (case lookup_node w node of
        None \<Rightarrow> Raised KeyError w
      | Some n \<Rightarrow>
          (case set_location new_location (arrays w n) of
             Raised e arr \<Rightarrow> Raised e (w\<lparr>arrays := (arrays w)(n := arr)\<rparr>)
           | Done arr \<Rightarrow>
              (let w1 = w\<lparr>arrays := (arrays w)(n := arr)\<rparr> in
               case map_of (connections (net w1)) n of
                 None \<Rightarrow> Raised KeyError w1
               | Some a \<Rightarrow>
                   and_then (for_each (realize_link realize) (dl a) w1)
                     (\<lambda>w2. case map_of (connections (net w2)) n of
                         None \<Rightarrow> Raised KeyError w2
                       | Some a2 \<Rightarrow> for_each (realize_link realize) (ul a2) w2))))"

section \<open>Concrete inputs\<close>

text \<open>
  Node 0 transmits to node 1 over \<open>L1\<close>, node 2 transmits to node 1 over \<open>L2\<close>;
  \<open>L1b\<close> is another channel object with the name and the endpoints of \<open>L1\<close>.
\<close>

definition L1 :: channel where
  "L1 = \<lparr>oid = 0, name = ''L1'', tx = 0, rx = 1\<rparr>"

definition L2 :: channel where
  "L2 = \<lparr>oid = 1, name = ''L2'', tx = 2, rx = 1\<rparr>"

definition L1b :: channel where
  "L1b = \<lparr>oid = 2, name = ''L1'', tx = 0, rx = 1\<rparr>"

definition net_L1 :: network where
  "net_L1 = \<lparr>net_name = ''Network'', links = [(Str ''L1'', L1)],
     connections = [(0, \<lparr>dl = [L1], ul = []\<rparr>), (1, \<lparr>dl = [], ul = [L1]\<rparr>)],
     target_links = [], target_nodes = []\<rparr>"

text \<open>The network after \<open>remove_nodes([node 0])\<close> on \<open>net_L1\<close>, as the code leaves it.\<close>

definition net_L1_removed :: network where
  "net_L1_removed = \<lparr>net_name = ''Network'', links = [(Str ''L1'', L1)],
     connections = [(0, \<lparr>dl = [L1], ul = []\<rparr>), (1, \<lparr>dl = [], ul = []\<rparr>)],
     target_links = [], target_nodes = []\<rparr>"

text \<open>A two-element array along the x axis, half a wavelength apart.\<close>

definition ula2 :: antenna_array where
  "ula2 = \<lparr>num_antennas = 2, coordinates = [(0, 0, 0), (1 / 2, 0, 0)],
     coordinates_dtype = Float64, weights = [1, 1],
     arr_name = ''AntennaArray'', frequency = 1000000000, marker = ''o'', power = 1, noise_power = 0\<rparr>"

text \<open>Two sets of metric values, and an assignment of them to channels.\<close>

definition props_weak :: chan_props where
  "props_weak = \<lparr>ch_rx_power = 1, ch_bf_gain = 1, ch_bf_gain_db = 0,
     ch_signal_power = 1, ch_signal_power_db = 0,
     ch_bf_noise_power = 1 / 10, ch_bf_noise_power_db = - 10,
     ch_snr = 10, ch_snr_db = 10, ch_snr_upper_bound = 10, ch_snr_upper_bound_db = 10\<rparr>"

definition props_strong :: chan_props where
  "props_strong = \<lparr>ch_rx_power = 100, ch_bf_gain = 1, ch_bf_gain_db = 0,
     ch_signal_power = 100, ch_signal_power_db = 20,
     ch_bf_noise_power = 1 / 10, ch_bf_noise_power_db = - 10,
     ch_snr = 1000, ch_snr_db = 30, ch_snr_upper_bound = 1000, ch_snr_upper_bound_db = 30\<rparr>"

definition props_example :: "channel \<Rightarrow> chan_props" where
  "props_example l = (if l = L2 then props_strong else props_weak)"

definition net_L1_L2 :: network where
  "net_L1_L2 = \<lparr>net_name = ''Network'', links = [(Str ''L1'', L1), (Str ''L2'', L2)],
     connections = [(0, \<lparr>dl = [L1], ul = []\<rparr>), (1, \<lparr>dl = [], ul = [L1, L2]\<rparr>),
                    (2, \<lparr>dl = [L2], ul = []\<rparr>)],
     target_links = [], target_nodes = []\<rparr>"

text \<open>The network after \<open>remove_links(['L1'])\<close> on \<open>net_L1_L2\<close>.\<close>

definition net_L2_left :: network where
  "net_L2_left = \<lparr>net_name = ''Network'', links = [(Str ''L2'', L2)],
     connections = [(0, \<lparr>dl = [], ul = []\<rparr>), (1, \<lparr>dl = [], ul = [L2]\<rparr>),
                    (2, \<lparr>dl = [L2], ul = []\<rparr>)],
     target_links = [], target_nodes = []\<rparr>"




text \<open>
  The array \<open>AntennaArray(2, [[0, 0, 0], [1, 0, 0]])\<close>, whose coordinates are integers, and a
  world on the network of \<open>L1\<close> and \<open>L2\<close> in which node 0 is that array and no channel has
  been realized yet.
\<close>

definition array_int :: antenna_array where
  "array_int = \<lparr>num_antennas = 2, coordinates = [(0, 0, 0), (1, 0, 0)],
     coordinates_dtype = Int64, weights = [1, 1],
     arr_name = ''AntennaArray'', frequency = 1000000000, marker = ''o'', power = 1, noise_power = 0\<rparr>"

definition world_int :: world where
  "world_int =
     \<lparr>net = net_L1_L2, arrays = (\<lambda>n. if n = 0 then array_int else ula2),
      chans = (\<lambda>l. \<lparr>chan_H = None, chan_rng = 0\<rparr>)\<rparr>"

chapter \<open>Facts and claims\<close>

section \<open>Basic facts about the graph operations\<close>

lemma for_each_append:
  "for_each body (xs @ ys) s = and_then (for_each body xs s) (for_each body ys)"
proof (induction xs arbitrary: s)
  case Nil
  show ?case by simp
next
  case (Cons x xs)
  show ?case
    by (cases "body x s") (simp_all add: Cons.IH)
qed

lemma links_add_node [simp]: "links (add_node n s) = links s"
  by (simp add: add_node_def)

lemma add_node_key [simp]: "n \<in> fst ` set (connections (add_node n s))"
  by (simp add: add_node_def AList.dom_update)

lemma add_node_lookup: "\<exists>a. map_of (connections (add_node n s)) n = Some a"
proof -
  have "n \<in> fst ` set (connections (add_node n s))" by simp
  then have "map_of (connections (add_node n s)) n \<noteq> None"
    by (simp only: map_of_eq_None_iff not_not)
  then show ?thesis by blast
qed

lemma dl_append_add_node:
  "\<exists>a. dl_append n l (add_node n s)
       = Done ((add_node n s)\<lparr>connections :=
                 AList.update n (a\<lparr>dl := dl a @ [l]\<rparr>) (connections (add_node n s))\<rparr>)
     \<and> map_of (connections (add_node n s)) n = Some a"
  using add_node_lookup [of n s] by (auto simp: dl_append_def)

lemma ul_append_add_node:
  "\<exists>a. ul_append n l (add_node n s)
       = Done ((add_node n s)\<lparr>connections :=
                 AList.update n (a\<lparr>ul := ul a @ [l]\<rparr>) (connections (add_node n s))\<rparr>)
     \<and> map_of (connections (add_node n s)) n = Some a"
  using add_node_lookup [of n s] by (auto simp: ul_append_def)

text \<open>Adding a link never raises; when it does add, the name becomes a key of the mapping.\<close>

lemma add_link_fresh:
  assumes "Str (name l) \<notin> fst ` set (links s) \<and> l \<notin> set (map snd (links s))"
  shows "\<exists>s'. add_link l s = Done s' \<and> links s' = AList.update (Str (name l)) l (links s)"
proof -
  let ?s0 = "s\<lparr>links := AList.update (Str (name l)) l (links s)\<rparr>"
  obtain a where a: "dl_append (tx l) l (add_node (tx l) ?s0)
       = Done ((add_node (tx l) ?s0)\<lparr>connections :=
                 AList.update (tx l) (a\<lparr>dl := dl a @ [l]\<rparr>) (connections (add_node (tx l) ?s0))\<rparr>)"
    using dl_append_add_node [of "tx l" l ?s0] by blast
  let ?s1 = "(add_node (tx l) ?s0)\<lparr>connections :=
                 AList.update (tx l) (a\<lparr>dl := dl a @ [l]\<rparr>) (connections (add_node (tx l) ?s0))\<rparr>"
  obtain b where b: "ul_append (rx l) l (add_node (rx l) ?s1)
       = Done ((add_node (rx l) ?s1)\<lparr>connections :=
                 AList.update (rx l) (b\<lparr>ul := ul b @ [l]\<rparr>) (connections (add_node (rx l) ?s1))\<rparr>)"
    using ul_append_add_node [of "rx l" l ?s1] by blast
  have "add_link l s = Done ((add_node (rx l) ?s1)\<lparr>connections :=
                 AList.update (rx l) (b\<lparr>ul := ul b @ [l]\<rparr>) (connections (add_node (rx l) ?s1))\<rparr>)"
    using assms a b by (simp add: add_link_def)
  then show ?thesis by simp
qed

lemma add_link_present:
  "\<not> (Str (name l) \<notin> fst ` set (links s) \<and> l \<notin> set (map snd (links s))) \<Longrightarrow> add_link l s = Done s"
  by (auto simp: add_link_def)

lemma add_link_twice: "and_then (add_link l s) (add_link l) = add_link l s"
proof (cases "Str (name l) \<notin> fst ` set (links s) \<and> l \<notin> set (map snd (links s))")
  case True
  then obtain s' where s': "add_link l s = Done s'"
      and ls: "links s' = AList.update (Str (name l)) l (links s)"
    using add_link_fresh by blast
  have "Str (name l) \<in> fst ` set (links s')"
    by (simp add: ls AList.dom_update)
  then have "add_link l s' = Done s'"
    by (simp add: add_link_present)
  with s' show ?thesis by simp
next
  case False
  then have "add_link l s = Done s" by (rule add_link_present)
  then show ?thesis by simp
qed

section \<open>Claims about adding links\<close>

text \<open>
  C10. Adding a link is idempotent and duplicate-safe: when the channel object is already
  a value of the link mapping, or its name is already a key, \<open>add_links\<close> (called with the
  channel itself or with a list holding it) returns normally and leaves the whole network,
  link mapping and adjacency lists included, as it was; and for every network, adding the
  same link twice gives the network that adding it once gives.
\<close>

theorem add_links_idempotent:
  "(Str (name link) \<in> fst ` set (links self) \<or> link \<in> set (map snd (links self))
      \<longrightarrow> add_links (Single link) self = Done self
        \<and> add_links (Iterable [link]) self = Done self)
   \<and> add_links (Iterable [link, link]) self = add_links (Iterable [link]) self
   \<and> and_then (add_links (Single link) self) (add_links (Single link)) = add_links (Single link) self"
proof (intro conjI impI)
  assume h: "Str (name link) \<in> fst ` set (links self) \<or> link \<in> set (map snd (links self))"
  then have "add_link link self = Done self"
    by (intro add_link_present) blast
  then show "add_links (Single link) self = Done self"
    and "add_links (Iterable [link]) self = Done self"
    by simp_all
next
  show "add_links (Iterable [link, link]) self = add_links (Iterable [link]) self"
    using add_link_twice [of link self]
    by (cases "add_link link self") auto
next
  show "and_then (add_links (Single link) self) (add_links (Single link)) = add_links (Single link) self"
    using add_link_twice [of link self]
    by (cases "add_link link self") auto
qed

section \<open>The concrete network of one link\<close>

lemma net_L1_built: "add_links (Iterable [L1]) (Network ''Network'') = Done net_L1"
  by (simp add: add_link_def add_node_def dl_append_def ul_append_def Network_def L1_def net_L1_def)

lemma net_L1_remove_node_0: "remove_nodes (Iterable [0]) net_L1 = Done net_L1_removed"
  by (simp add: remove_node_def ul_remove_def dl_remove_def net_L1_def net_L1_removed_def L1_def)

theorem add_links_idempotent_witness:
  "Str (name L1) \<in> fst ` set (links net_L1)
   \<and> add_links (Single L1) net_L1 = Done net_L1
   \<and> add_links (Iterable [L1]) net_L1 = Done net_L1
   \<and> add_links (Iterable [L1, L1]) (Network ''Network'') = Done net_L1"
proof -
  have k: "Str (name L1) \<in> fst ` set (links net_L1)"
    by (simp add: net_L1_def L1_def)
  have "add_links (Iterable [L1, L1]) (Network ''Network'') = Done net_L1"
    using add_links_idempotent [of L1 "Network ''Network''"]
    by (simp only: net_L1_built)
  with k add_links_idempotent [of L1 net_L1] show ?thesis
    by blast
qed

section \<open>Claims about removing a node\<close>

text \<open>
  C1 (the code departs from the claim). On the network with the single link \<open>L1\<close> from
  node 0 to node 1, \<open>remove_nodes([node 0])\<close> returns normally; \<open>L1\<close> leaves the uplink
  list of node 1, but the link mapping still holds it under its name, and afterwards
  \<open>add_links\<close> of a new channel object with that name changes nothing: the new link is
  not registered.
\<close>

theorem remove_nodes_keeps_link_name:
  "and_then (add_links (Iterable [L1]) (Network ''Network'')) (remove_nodes (Iterable [0]))
     = Done net_L1_removed
   \<and> map_of (connections net_L1_removed) 1 = Some \<lparr>dl = [], ul = []\<rparr>
   \<and> map_of (links net_L1_removed) (Str ''L1'') = Some L1
   \<and> L1b \<noteq> L1
   \<and> add_links (Iterable [L1b]) net_L1_removed = Done net_L1_removed
   \<and> L1b \<notin> set (map snd (links net_L1_removed))"
proof (intro conjI)
  show "and_then (add_links (Iterable [L1]) (Network ''Network'')) (remove_nodes (Iterable [0]))
          = Done net_L1_removed"
    by (simp only: net_L1_built and_then.simps net_L1_remove_node_0)
  show "add_links (Iterable [L1b]) net_L1_removed = Done net_L1_removed"
    by (simp add: add_link_def net_L1_removed_def L1_def L1b_def)
qed (simp_all add: net_L1_removed_def L1_def L1b_def)

text \<open>
  C2 (the code departs from the claim). The same two calls, \<open>add_links([L1])\<close> then
  \<open>remove_nodes([node 0])\<close>, leave \<open>L1\<close> in the link mapping while no uplink list
  holds it: the graph is consistent before the removal and inconsistent after it.
\<close>

theorem remove_nodes_breaks_consistency:
  "graph_consistent net_L1
   \<and> remove_nodes (Iterable [0]) net_L1 = Done net_L1_removed
   \<and> L1 \<in> set (map snd (links net_L1_removed))
   \<and> filter (\<lambda>(n, a). L1 \<in> set (ul a)) (connections net_L1_removed) = []
   \<and> \<not> graph_consistent net_L1_removed"
proof (intro conjI)
  show "remove_nodes (Iterable [0]) net_L1 = Done net_L1_removed"
    by (rule net_L1_remove_node_0)
  show "graph_consistent net_L1"
    by (simp add: graph_consistent_def net_L1_def L1_def)
  show "\<not> graph_consistent net_L1_removed"
    by (simp add: graph_consistent_def net_L1_removed_def L1_def)
qed (simp_all add: net_L1_removed_def L1_def)

section \<open>Networks built through the public methods\<close>

lemma set_update_subset: "set (AList.update k v al) \<subseteq> insert (k, v) (set al)"
  by (induction al) auto

lemma values_delete_subset: "snd ` set (AList.delete k al) \<subseteq> snd ` set al"
  by (auto simp: AList.delete_eq)

lemma for_each_inv:
  assumes "\<And>x s. I s \<Longrightarrow> I (state_of (body x s))" and "I s"
  shows "I (state_of (for_each body xs s))"
  using assms(2)
proof (induction xs arbitrary: s)
  case Nil
  then show ?case by simp
next
  case (Cons x xs)
  have "I (state_of (body x s))" using assms(1) Cons.prems by blast
  then show ?case
    using Cons.IH by (cases "body x s") auto
qed

lemma and_then_inv:
  assumes "I (state_of r)" and "\<And>s. I s \<Longrightarrow> I (state_of (f s))"
  shows "I (state_of (and_then r f))"
  using assms by (cases r) auto

lemma fold_inv:
  assumes "\<And>x s. I s \<Longrightarrow> I (f x s)" and "I s"
  shows "I (fold f xs s)"
  using assms(2) by (induction xs arbitrary: s) (auto intro: assms(1))

text \<open>Soundness of the adjacency lists, step by step.\<close>

lemma adj_sound_links [simp]: "adj_sound (s\<lparr>links := ls\<rparr>) = adj_sound s"
  by (simp add: adj_sound_def)

lemma adj_sound_targets [simp]:
  "adj_sound (s\<lparr>target_nodes := tn\<rparr>) = adj_sound s"
  "adj_sound (s\<lparr>target_links := tls\<rparr>) = adj_sound s"
  by (simp_all add: adj_sound_def)

lemma adj_sound_update:
  assumes "adj_sound s" "\<forall>l \<in> set (dl a). tx l = n" "\<forall>l \<in> set (ul a). rx l = n"
  shows "adj_sound (s\<lparr>connections := AList.update n a (connections s)\<rparr>)"
  using assms set_update_subset [of n a "connections s"]
  by (fastforce simp: adj_sound_def)

lemma adj_sound_dlD:
  "adj_sound s \<Longrightarrow> map_of (connections s) n = Some a \<Longrightarrow> l \<in> set (dl a) \<Longrightarrow> tx l = n"
  by (auto simp: adj_sound_def dest!: map_of_SomeD)

lemma adj_sound_ulD:
  "adj_sound s \<Longrightarrow> map_of (connections s) n = Some a \<Longrightarrow> l \<in> set (ul a) \<Longrightarrow> rx l = n"
  by (auto simp: adj_sound_def dest!: map_of_SomeD)

lemma adj_sound_add_node: "adj_sound s \<Longrightarrow> adj_sound (add_node n s)"
  by (simp add: add_node_def adj_sound_update)

lemma adj_sound_modify:
  assumes "adj_sound s" "map_of (connections s) n = Some a"
    and "set (dl b) \<subseteq> set (dl a) \<union> {l. tx l = n}" "set (ul b) \<subseteq> set (ul a) \<union> {l. rx l = n}"
  shows "adj_sound (s\<lparr>connections := AList.update n b (connections s)\<rparr>)"
proof (rule adj_sound_update [OF assms(1)])
  show "\<forall>l \<in> set (dl b). tx l = n"
    using assms adj_sound_dlD by blast
  show "\<forall>l \<in> set (ul b). rx l = n"
    using assms adj_sound_ulD by blast
qed

lemma adj_sound_dl_append: "adj_sound s \<Longrightarrow> adj_sound (state_of (dl_append (tx l) l s))"
  by (auto simp: dl_append_def split: option.splits intro!: adj_sound_modify)

lemma adj_sound_ul_append: "adj_sound s \<Longrightarrow> adj_sound (state_of (ul_append (rx l) l s))"
  by (auto simp: ul_append_def split: option.splits intro!: adj_sound_modify)

lemma adj_sound_dl_remove: "adj_sound s \<Longrightarrow> adj_sound (state_of (dl_remove n l s))"
  by (auto simp: dl_remove_def split: option.splits intro!: adj_sound_modify
        dest: notin_set_remove1)

lemma adj_sound_ul_remove: "adj_sound s \<Longrightarrow> adj_sound (state_of (ul_remove n l s))"
  by (auto simp: ul_remove_def split: option.splits intro!: adj_sound_modify
        dest: notin_set_remove1)

lemma adj_sound_add_link: "adj_sound s \<Longrightarrow> adj_sound (state_of (add_link l s))"
  unfolding add_link_def
  by (auto intro!: and_then_inv [where I = adj_sound] adj_sound_dl_append adj_sound_ul_append
        adj_sound_add_node)

lemma adj_sound_remove_link: "adj_sound s \<Longrightarrow> adj_sound (state_of (remove_link r s))"
  unfolding remove_link_def
  by (auto split: option.splits pyref.splits
        intro!: and_then_inv [where I = adj_sound] adj_sound_dl_remove adj_sound_ul_remove)

lemma adj_sound_remove_node: "adj_sound s \<Longrightarrow> adj_sound (state_of (remove_node n s))"
  unfolding remove_node_def
  by (auto split: option.splits
        intro!: and_then_inv [where I = adj_sound] for_each_inv [where I = adj_sound]
          adj_sound_dl_remove adj_sound_ul_remove)

lemma grows_refl [simp]: "grows s s"
  by (simp add: grows_def)

lemma grows_trans: "grows s s1 \<Longrightarrow> grows s1 s2 \<Longrightarrow> grows s s2"
  unfolding grows_def by (meson order_trans)

lemma grows_endpoints:
  assumes "endpoints_present s" "grows s s'"
  shows "endpoints_present s'"
  unfolding endpoints_present_def
proof
  fix l assume "l \<in> set (map snd (links s'))"
  then have "l \<in> snd ` set (links s)"
    using assms(2) by (auto simp: grows_def)
  then have "tx l \<in> fst ` set (connections s) \<and> rx l \<in> fst ` set (connections s)"
    using assms(1) by (auto simp: endpoints_present_def)
  then show "tx l \<in> fst ` set (connections s') \<and> rx l \<in> fst ` set (connections s')"
    using assms(2) unfolding grows_def by (meson subsetD)
qed

lemma grows_targets [simp]:
  "grows s (s'\<lparr>target_nodes := tn\<rparr>) = grows s s'"
  "grows s (s'\<lparr>target_links := tls\<rparr>) = grows s s'"
  by (simp_all add: grows_def)

lemma grows_update_conn: "grows s (s\<lparr>connections := AList.update n a (connections s)\<rparr>)"
  by (auto simp: grows_def AList.dom_update)

lemma grows_delete_link: "grows s (s\<lparr>links := AList.delete k (links s)\<rparr>)"
  using values_delete_subset [of k "links s"] by (auto simp: grows_def)

lemma grows_add_node: "grows s (add_node n s)"
  by (simp add: add_node_def grows_update_conn)

lemma grows_dl_append: "grows s (state_of (dl_append n l s))"
  by (auto simp: dl_append_def grows_update_conn split: option.splits)

lemma grows_ul_append: "grows s (state_of (ul_append n l s))"
  by (auto simp: ul_append_def grows_update_conn split: option.splits)

lemma grows_dl_remove: "grows s (state_of (dl_remove n l s))"
  by (auto simp: dl_remove_def grows_update_conn split: option.splits)

lemma grows_ul_remove: "grows s (state_of (ul_remove n l s))"
  by (auto simp: ul_remove_def grows_update_conn split: option.splits)

lemma grows_and_then:
  assumes "grows s (state_of r)" and "\<And>s1. grows s1 (state_of (f s1))"
  shows "grows s (state_of (and_then r f))"
  using assms by (cases r) (auto intro: grows_trans)

lemma grows_for_each:
  assumes "\<And>x s1. grows s1 (state_of (body x s1))"
  shows "grows s (state_of (for_each body xs s))"
proof (rule for_each_inv [where I = "grows s"])
  show "grows s s" by simp
  show "grows s (state_of (body x s1))" if "grows s s1" for x s1
    using that assms grows_trans by blast
qed

lemma grows_remove_link: "grows s (state_of (remove_link r s))"
proof -
  have step: "grows s (state_of (and_then
            (dl_remove (tx l) l (s\<lparr>links := AList.delete (Str (name l)) (links s)\<rparr>))
            (ul_remove (rx l) l)))" for l
    by (intro grows_and_then grows_ul_remove grows_trans [OF grows_delete_link grows_dl_remove])
  show ?thesis
    unfolding remove_link_def
    by (auto split: option.splits pyref.splits intro: step)
qed

lemma grows_remove_node: "grows s (state_of (remove_node n s))"
proof -
  have ul_step: "grows s1 (state_of (ul_remove (rx l) l (s1\<lparr>links := AList.delete (Obj l) (links s1)\<rparr>)))"
    for l s1
    by (rule grows_trans [OF grows_delete_link grows_ul_remove])
  have dl_step: "grows s1 (state_of (dl_remove (tx l) l (s1\<lparr>links := AList.delete (Obj l) (links s1)\<rparr>)))"
    for l s1
    by (rule grows_trans [OF grows_delete_link grows_dl_remove])
  show ?thesis
    unfolding remove_node_def
    by (auto split: option.splits intro!: grows_and_then grows_for_each ul_step dl_step)
qed

lemma endpoints_add_link:
  assumes "endpoints_present s"
  shows "endpoints_present (state_of (add_link l s))"
proof (cases "Str (name l) \<notin> fst ` set (links s) \<and> l \<notin> set (map snd (links s))")
  case False
  then have "add_link l s = Done s" by (rule add_link_present)
  with assms show ?thesis by simp
next
  case True
  let ?s0 = "s\<lparr>links := AList.update (Str (name l)) l (links s)\<rparr>"
  let ?s1 = "add_node (tx l) ?s0"
  let ?s2 = "state_of (dl_append (tx l) l ?s1)"
  let ?s3 = "add_node (rx l) ?s2"
  let ?s4 = "state_of (ul_append (rx l) l ?s3)"
  have eq: "state_of (add_link l s) = ?s4"
    using True dl_append_add_node [of "tx l" l ?s0]
    by (auto simp: add_link_def)
  have g12: "grows ?s1 ?s2" by (rule grows_dl_append)
  have g23: "grows ?s2 ?s3" by (rule grows_add_node)
  have g34: "grows ?s3 ?s4" by (rule grows_ul_append)
  have g14: "grows ?s1 ?s4" using g12 g23 g34 grows_trans by blast
  have g01: "grows ?s0 ?s1" by (rule grows_add_node)
  have keys_s: "fst ` set (connections s) \<subseteq> fst ` set (connections ?s4)"
    using g01 g14 by (auto simp: grows_def)
  have tx_in: "tx l \<in> fst ` set (connections ?s4)"
    using add_node_key [of "tx l" ?s0] g14 by (auto simp: grows_def)
  have rx_in: "rx l \<in> fst ` set (connections ?s4)"
    using add_node_key [of "rx l" ?s2] g34 by (auto simp: grows_def)
  have "snd ` set (links ?s4) \<subseteq> snd ` set (links ?s0)"
    using g01 g14 by (auto simp: grows_def)
  also have "\<dots> \<subseteq> insert l (snd ` set (links s))"
    using set_update_subset [of "Str (name l)" l "links s"] by auto
  finally have vals: "snd ` set (links ?s4) \<subseteq> insert l (snd ` set (links s))" .
  show ?thesis
    unfolding eq endpoints_present_def
  proof
    fix k assume "k \<in> set (map snd (links ?s4))"
    then have "k = l \<or> k \<in> snd ` set (links s)" using vals by auto
    then show "tx k \<in> fst ` set (connections ?s4) \<and> rx k \<in> fst ` set (connections ?s4)"
      using tx_in rx_in keys_s assms by (auto simp: endpoints_present_def)
  qed
qed

lemma graph_inv_add_node: "graph_inv s \<Longrightarrow> graph_inv (add_node n s)"
  by (auto simp: graph_inv_def adj_sound_add_node intro: grows_endpoints grows_add_node)

lemma graph_inv_add_link: "graph_inv s \<Longrightarrow> graph_inv (state_of (add_link l s))"
  by (simp add: graph_inv_def adj_sound_add_link endpoints_add_link)

lemma graph_inv_remove_link: "graph_inv s \<Longrightarrow> graph_inv (state_of (remove_link r s))"
  by (auto simp: graph_inv_def adj_sound_remove_link intro: grows_endpoints grows_remove_link)

lemma graph_inv_remove_node: "graph_inv s \<Longrightarrow> graph_inv (state_of (remove_node n s))"
  by (auto simp: graph_inv_def adj_sound_remove_node intro: grows_endpoints grows_remove_node)

lemma graph_inv_targets [simp]:
  "graph_inv (s\<lparr>target_nodes := tn\<rparr>) = graph_inv s"
  "graph_inv (s\<lparr>target_links := tls\<rparr>) = graph_inv s"
  by (simp_all add: graph_inv_def endpoints_present_def)

lemma graph_inv_remove_target_node: "graph_inv s \<Longrightarrow> graph_inv (state_of (remove_target_node n s))"
  by (simp add: remove_target_node_def)

lemma graph_inv_remove_target_link: "graph_inv s \<Longrightarrow> graph_inv (state_of (remove_target_link l s))"
  by (simp add: remove_target_link_def)

lemma graph_inv_add_target_link:
  "graph_inv s \<Longrightarrow> graph_inv (state_of (and_then (add_link l s)
       (\<lambda>s1. Done (s1\<lparr>target_links := target_links s1 @ [l]\<rparr>))))"
  using graph_inv_add_link [of s l] by (cases "add_link l s") auto

lemma reachable_graph_inv: "reachable s \<Longrightarrow> graph_inv s"
proof (induction rule: reachable.induct)
  case (init nm)
  show ?case
    by (simp add: graph_inv_def adj_sound_def endpoints_present_def Network_def)
next
  case (add_nodes s ns)
  then show ?case
    by (cases ns) (auto intro: fold_inv [where I = graph_inv] graph_inv_add_node)
next
  case (add_links s ls)
  then show ?case
    by (cases ls) (auto intro: for_each_inv [where I = graph_inv] graph_inv_add_link)
next
  case (remove_nodes s ns)
  then show ?case
    by (cases ns) (auto intro: for_each_inv [where I = graph_inv] graph_inv_remove_node)
next
  case (remove_links s rs)
  show ?case
  proof (cases rs)
    case (Single r)
    with remove_links.IH show ?thesis
      by (cases r) (auto intro: for_each_inv [where I = graph_inv] graph_inv_remove_link)
  next
    case (Iterable rl)
    with remove_links.IH show ?thesis
      by (auto intro: for_each_inv [where I = graph_inv] graph_inv_remove_link)
  qed
next
  case (add_target_nodes s ns)
  then show ?case
    by (cases ns) (auto intro!: fold_inv [where I = graph_inv] graph_inv_add_node)
next
  case (add_target_links s ls)
  then show ?case
    by (cases ls) (auto intro: for_each_inv [where I = graph_inv] graph_inv_add_target_link)
next
  case (remove_target_nodes s ns)
  then show ?case
    by (cases ns) (auto intro: for_each_inv [where I = graph_inv] graph_inv_remove_target_node)
next
  case (remove_target_links s ls)
  then show ?case
    by (cases ls) (auto intro: for_each_inv [where I = graph_inv] graph_inv_remove_target_link)
qed

section \<open>Antenna arrays\<close>

lemma nth_concat_map_uniform:
  assumes "\<forall>x \<in> set xs. length (f x) = n" "i < length xs" "k < n"
  shows "concat (map f xs) ! (i * n + k) = f (xs ! i) ! k"
  using assms
proof (induction xs arbitrary: i)
  case Nil
  then show ?case by simp
next
  case (Cons x xs)
  show ?case
  proof (cases i)
    case 0
    with Cons.prems show ?thesis by (simp add: nth_append)
  next
    case (Suc i')
    with Cons.prems have "concat (map f xs) ! (i' * n + k) = f (xs ! i') ! k"
      by (intro Cons.IH) auto
    with Suc Cons.prems show ?thesis
      by (simp add: nth_append)
  qed
qed

lemma length_concat_map_uniform:
  "\<forall>x \<in> set xs. length (f x) = n \<Longrightarrow> length (concat (map f xs)) = length xs * n"
  by (induction xs) auto

lemma response_data_length:
  assumes "length dx = n" "length dy = n" "length dz = n"
  shows "length (response_data dx dy dz az el) = length az * (length el * n)"
  unfolding response_data_def
  by (simp add: length_concat_map_uniform assms)

lemma response_data_nth:
  assumes n: "length dx = n" "length dy = n" "length dz = n"
    and i: "i < length az" and j: "j < length el" and k: "k < n"
  shows "response_data dx dy dz az el ! ((i * length el + j) * n + k)
         = exp (\<i> * 2 * complex_of_real pi
                * complex_of_real (dx ! k * sin (az ! i) * cos (el ! j)
                                   + dy ! k * cos (az ! i) * cos (el ! j)
                                   + dz ! k * sin (el ! j)))"
proof -
  let ?row = "\<lambda>a e. map (\<lambda>(x, y, z).
               exp (\<i> * 2 * complex_of_real pi
                    * complex_of_real (x * sin a * cos e + y * cos a * cos e + z * sin e)))
            (zip dx (zip dy dz))"
  let ?plane = "\<lambda>a. concat (map (?row a) el)"
  have row_len: "\<And>a. \<forall>e \<in> set el. length (?row a e) = n"
    using n by simp
  have plane_len: "\<forall>a \<in> set az. length (?plane a) = length el * n"
    using row_len by (simp add: length_concat_map_uniform)
  have idx: "(i * length el + j) * n + k = i * (length el * n) + (j * n + k)"
    by (simp add: algebra_simps)
  have "j * n + k < length el * n"
  proof -
    have "j * n + k < j * n + n" using k by simp
    also have "\<dots> = (Suc j) * n" by simp
    also have "\<dots> \<le> length el * n" using j by (intro mult_le_mono1) simp
    finally show ?thesis .
  qed
  then have "concat (map ?plane az) ! (i * (length el * n) + (j * n + k)) = ?plane (az ! i) ! (j * n + k)"
    using plane_len i by (intro nth_concat_map_uniform) auto
  also have "\<dots> = ?row (az ! i) (el ! j) ! k"
    using row_len j k by (intro nth_concat_map_uniform) auto
  also have "\<dots> = exp (\<i> * 2 * complex_of_real pi
                * complex_of_real (dx ! k * sin (az ! i) * cos (el ! j)
                                   + dy ! k * cos (az ! i) * cos (el ! j)
                                   + dz ! k * sin (el ! j)))"
    using n k by simp
  finally show ?thesis
    unfolding response_data_def idx .
qed

lemma get_array_response_data:
  assumes "coordinates self = c0 # cs"
  shows "\<exists>r. get_array_response az el torch_device return_tensor self = Inr r
     \<and> data r = response_data (map (\<lambda>c. fst c - fst c0) (coordinates self))
                               (map (\<lambda>c. fst (snd c) - fst (snd c0)) (coordinates self))
                               (map (\<lambda>c. snd (snd c) - snd (snd c0)) (coordinates self)) az el"
  using assms
  by (cases torch_device)
     (simp_all add: get_array_response_def get_array_response_torch_def squeeze_def
        reshape_column_def Let_def)

text \<open>
  C5. For an array with at least one element, every azimuth \<open>az ! i\<close> and elevation
  \<open>el ! j\<close>, \<open>get_array_response\<close> (on either back end) returns an array whose entry
  for element \<open>k\<close>, displaced by \<open>(x - x0, y - y0, z - z0)\<close> from element 0, is
  \<open>exp(i 2 pi ((x - x0) sin(az) cos(el) + (y - y0) cos(az) cos(el) + (z - z0) sin(el)))\<close>;
  the entry for element 0 is exactly 1. Entries are addressed in the row-major order of
  the broadcast shape (|az|, |el|, N), which \<open>squeeze\<close> and \<open>reshape\<close> keep.
\<close>

theorem array_response_entry:
  assumes c: "coordinates self = (x0, y0, z0) # cs"
    and i: "i < length az" and j: "j < length el" and k: "k < length (coordinates self)"
    and ck: "coordinates self ! k = (x, y, z)"
  shows "\<exists>r. get_array_response az el torch_device return_tensor self = Inr r
     \<and> length (data r) = length az * (length el * length (coordinates self))
     \<and> data r ! ((i * length el + j) * length (coordinates self) + k)
         = exp (\<i> * 2 * complex_of_real pi
                * complex_of_real ((x - x0) * sin (az ! i) * cos (el ! j)
                                   + (y - y0) * cos (az ! i) * cos (el ! j)
                                   + (z - z0) * sin (el ! j)))
     \<and> data r ! ((i * length el + j) * length (coordinates self)) = 1"
proof -
  let ?n = "length (coordinates self)"
  let ?dx = "map (\<lambda>c. fst c - fst (x0, y0, z0)) (coordinates self)"
  let ?dy = "map (\<lambda>c. fst (snd c) - fst (snd (x0, y0, z0))) (coordinates self)"
  let ?dz = "map (\<lambda>c. snd (snd c) - snd (snd (x0, y0, z0))) (coordinates self)"
  obtain r where r: "get_array_response az el torch_device return_tensor self = Inr r"
    and d: "data r = response_data ?dx ?dy ?dz az el"
    using get_array_response_data [OF c] by blast
  have len: "length ?dx = ?n" "length ?dy = ?n" "length ?dz = ?n" by simp_all
  have pos: "0 < ?n" using c by simp
  have e1: "data r ! ((i * length el + j) * ?n + k)
         = exp (\<i> * 2 * complex_of_real pi
                * complex_of_real ((x - x0) * sin (az ! i) * cos (el ! j)
                                   + (y - y0) * cos (az ! i) * cos (el ! j)
                                   + (z - z0) * sin (el ! j)))"
    using response_data_nth [OF len i j k] k ck by (simp add: d)
  have "data r ! ((i * length el + j) * ?n + 0) = 1"
    using response_data_nth [OF len i j pos] c by (simp add: d)
  then have e0: "data r ! ((i * length el + j) * ?n) = 1" by simp
  have "length (data r) = length az * (length el * ?n)"
    using response_data_length [OF len] by (simp add: d)
  with r e1 e0 show ?thesis by blast
qed

theorem array_response_entry_witness:
  "coordinates ula2 = (0, 0, 0) # [(1 / 2, 0, 0)]
   \<and> (\<exists>r. get_array_response [pi / 2] [0] None False ula2 = Inr r
        \<and> length (data r) = 2
        \<and> data r ! 1 = - 1
        \<and> data r ! 0 = 1)"
proof -
  have c: "coordinates ula2 = (0, 0, 0) # [(1 / 2, 0, 0)]"
    by (simp add: ula2_def)
  have e: "exp (\<i> * 2 * complex_of_real pi * complex_of_real (1 / 2)) = - 1"
    using exp_pi_i by simp
  show ?thesis
    using array_response_entry [OF c, of 0 "[pi / 2]" 0 "[0]" 1 "1 / 2" 0 0 None False] c e
    by (auto simp: ula2_def)
qed

section \<open>Lookup failures\<close>

lemma remove_link_unknown_name:
  "map_of (links self) (Str s) = None \<Longrightarrow> remove_link (Str s) self = Raised KeyError self"
  by (simp add: remove_link_def)

lemma remove_link_unknown_object:
  assumes "Str (name l) \<notin> fst ` set (links self)"
    and "\<forall>a. map_of (connections self) (tx l) = Some a \<longrightarrow> l \<notin> set (dl a)"
  shows "\<exists>e. remove_link (Obj l) self = Raised e self"
proof -
  have "self\<lparr>links := AList.delete (Str (name l)) (links self)\<rparr> = self"
    using assms(1) by simp
  moreover have "\<exists>e. dl_remove (tx l) l self = Raised e self"
    using assms(2) by (cases "map_of (connections self) (tx l)") (auto simp: dl_remove_def)
  ultimately show ?thesis
    by (auto simp: remove_link_def)
qed

lemma remove_node_unknown:
  assumes "n \<notin> fst ` set (connections self)"
  shows "remove_node n self = Done self"
proof -
  have "map_of (connections self) n = None"
    using assms by (simp add: map_of_eq_None_iff)
  then show ?thesis
    by (simp add: remove_node_def)
qed

lemma remove_nodes_unknown:
  "\<forall>n \<in> set ns. n \<notin> fst ` set (connections self) \<Longrightarrow> for_each remove_node ns self = Done self"
  by (induction ns) (simp_all add: remove_node_unknown)

lemma remove_links_fail_at:
  assumes "for_each remove_link pre net0 = Done self" and "remove_link x self = Raised e self"
  shows "remove_links (Iterable (pre @ x # rest)) net0 = Raised e self"
  using assms by (simp add: for_each_append)

text \<open>
  Cases apart from these. Removing a channel object that is not registered but bears the
  name of a registered link pops that link from the mapping before \<open>list.remove\<close>
  raises. A name passed bare to \<open>remove_links\<close> is traversed character by character, and
  a node passed bare to \<open>remove_nodes\<close> raises AttributeError whether it is present or
  not. \<open>remove_elements\<close> raises TypeError for every list of coordinates, matching or not,
  while the body of \<open>_remove_elements_by_coord\<close>, which no call reaches, would delete
  nothing and raise nothing for coordinates that match no row.
\<close>

lemma remove_namesake_pops_registered_link:
  "L1b \<notin> set (map snd (links net_L1))
   \<and> remove_links (Iterable [Obj L1b]) net_L1 = Raised ValueError (net_L1\<lparr>links := []\<rparr>)"
  by (simp add: remove_link_def dl_remove_def net_L1_def L1_def L1b_def)

lemma remove_links_bare_name:
  "map_of (links net_L1) (Str ''L1x'') = None
   \<and> remove_links (Single (Str ''L1x'')) net_L1 = remove_links (Iterable [Str ''L'', Str ''1'', Str ''x'']) net_L1"
  by (simp add: net_L1_def)

lemma remove_nodes_bare_node: "remove_nodes (Single n) self = Raised AttributeError self"
  by simp

lemma remove_elements_given_coordinates:
  "remove_elements (Some query) indices self = Raised TypeError self"
  by (simp add: remove_elements_def)

lemma np_delete_nothing: "np_delete [] xs = Inr xs"
  by (simp add: np_delete_def nths_all)

lemma remove_elements_by_coord_no_match:
  "match_coordinates query self = [] \<Longrightarrow> remove_elements_by_coord self query = Done self"
  by (simp add: remove_elements_by_coord_def remove_elements_by_idx_def np_delete_nothing)

text \<open>
  C8 as stated fails: on the network with the single link \<open>L1\<close>, removing node 7, which
  is not a key of \<open>connections\<close>, returns normally; no error is raised.
\<close>

theorem remove_absent_node_silent:
  "7 \<notin> fst ` set (connections net_L1)
   \<and> remove_nodes (Iterable [7]) net_L1 = Done net_L1
   \<and> \<not> raised (remove_nodes (Iterable [7]) net_L1)"
  by (simp add: remove_node_def net_L1_def)

text \<open>
  C8, amended. Let \<open>self\<close> be the network as it is when a removal is attempted: the
  network \<open>net0\<close> before the call after the items \<open>pre\<close> that precede the attempt in the
  list passed to \<open>remove_links\<close> have been removed without error (\<open>net0\<close> itself when the
  attempt is the first item). Removing a link by a name that is not a key of the link
  mapping raises KeyError, in \<open>_remove_link\<close> and as an item of the list. Removing a
  channel object whose name is not a key of the mapping and which is not in the downlink
  list of its transmitter (or whose transmitter is not a node) raises an error, in
  \<open>_remove_link\<close>, passed alone to \<open>remove_links\<close> and as an item of the list. In each of
  these cases the call ends there with the link mapping and the adjacency structure
  exactly as they were at the attempt: the failing removal removes nothing, and the items
  after it are not reached. Removing nodes none of which is a key of \<open>connections\<close>,
  through \<open>_remove_node\<close> or as the list passed to \<open>remove_nodes\<close>, raises no error: it is
  a silent no-op that leaves the network as it was.
\<close>

theorem lookup_failures_leave_state:
  "(for_each remove_link pre net0 = Done self \<and> map_of (links self) (Str s) = None
      \<longrightarrow> remove_link (Str s) self = Raised KeyError self
          \<and> remove_links (Iterable (pre @ Str s # rest)) net0 = Raised KeyError self)
   \<and> (for_each remove_link pre net0 = Done self
        \<and> Str (name l) \<notin> fst ` set (links self)
        \<and> (\<forall>a. map_of (connections self) (tx l) = Some a \<longrightarrow> l \<notin> set (dl a))
      \<longrightarrow> (\<exists>e. remove_link (Obj l) self = Raised e self
               \<and> remove_links (Single (Obj l)) self = Raised e self
               \<and> remove_links (Iterable (pre @ Obj l # rest)) net0 = Raised e self))
   \<and> ((\<forall>n \<in> set ns. n \<notin> fst ` set (connections self))
      \<longrightarrow> (\<forall>n \<in> set ns. remove_node n self = Done self)
          \<and> remove_nodes (Iterable ns) self = Done self)"
proof -
  have by_name: "remove_link (Str s) self = Raised KeyError self
          \<and> remove_links (Iterable (pre @ Str s # rest)) net0 = Raised KeyError self"
    if h: "for_each remove_link pre net0 = Done self \<and> map_of (links self) (Str s) = None"
  proof -
    have r: "remove_link (Str s) self = Raised KeyError self"
      using h by (simp add: remove_link_unknown_name)
    show ?thesis
      using r remove_links_fail_at [OF conjunct1 [OF h] r] by simp
  qed
  have by_object: "\<exists>e. remove_link (Obj l) self = Raised e self
               \<and> remove_links (Single (Obj l)) self = Raised e self
               \<and> remove_links (Iterable (pre @ Obj l # rest)) net0 = Raised e self"
    if h: "for_each remove_link pre net0 = Done self
        \<and> Str (name l) \<notin> fst ` set (links self)
        \<and> (\<forall>a. map_of (connections self) (tx l) = Some a \<longrightarrow> l \<notin> set (dl a))"
  proof -
    obtain e where r: "remove_link (Obj l) self = Raised e self"
      using h remove_link_unknown_object by blast
    have "remove_links (Iterable (pre @ Obj l # rest)) net0 = Raised e self"
      using remove_links_fail_at [OF conjunct1 [OF h] r] .
    then show ?thesis
      using r by auto
  qed
  have by_node: "(\<forall>n \<in> set ns. remove_node n self = Done self)
          \<and> remove_nodes (Iterable ns) self = Done self"
    if h: "\<forall>n \<in> set ns. n \<notin> fst ` set (connections self)"
    using h remove_nodes_unknown [OF h] by (simp add: remove_node_unknown)
  show ?thesis
    using by_name by_object by_node by blast
qed

theorem lookup_failures_leave_state_witness:
  "for_each remove_link [Str ''L1''] net_L1_L2 = Done net_L2_left
   \<and> map_of (links net_L2_left) (Str ''L9'') = None
   \<and> remove_links (Iterable [Str ''L1'', Str ''L9'', Str ''L2'']) net_L1_L2 = Raised KeyError net_L2_left
   \<and> Str (name L1) \<notin> fst ` set (links net_L2_left)
   \<and> map_of (connections net_L2_left) (tx L1) = Some \<lparr>dl = [], ul = []\<rparr>
   \<and> (\<exists>e. remove_links (Single (Obj L1)) net_L2_left = Raised e net_L2_left
          \<and> remove_links (Iterable [Str ''L1'', Obj L1, Str ''L2'']) net_L1_L2 = Raised e net_L2_left)
   \<and> 7 \<notin> fst ` set (connections net_L2_left) \<and> 8 \<notin> fst ` set (connections net_L2_left)
   \<and> remove_nodes (Iterable [7, 8]) net_L2_left = Done net_L2_left"
proof -
  have h0: "for_each remove_link [Str ''L1''] net_L1_L2 = Done net_L2_left"
    by (simp add: remove_link_def dl_remove_def ul_remove_def net_L1_L2_def net_L2_left_def
          L1_def L2_def)
  have h1: "map_of (links net_L2_left) (Str ''L9'') = None"
    by (simp add: net_L2_left_def)
  have h2: "Str (name L1) \<notin> fst ` set (links net_L2_left)"
    by (simp add: net_L2_left_def L1_def)
  have h3: "map_of (connections net_L2_left) (tx L1) = Some \<lparr>dl = [], ul = []\<rparr>"
    by (simp add: net_L2_left_def L1_def)
  have h4: "7 \<notin> fst ` set (connections net_L2_left) \<and> 8 \<notin> fst ` set (connections net_L2_left)"
    by (simp add: net_L2_left_def)
  note T = lookup_failures_leave_state [of "[Str ''L1'']" net_L1_L2 net_L2_left "''L9''"
      "[Str ''L2'']" L1 "[7, 8]"]
  have a: "remove_links (Iterable [Str ''L1'', Str ''L9'', Str ''L2'']) net_L1_L2 = Raised KeyError net_L2_left"
    using T h0 h1 by simp
  have b: "\<exists>e. remove_links (Single (Obj L1)) net_L2_left = Raised e net_L2_left
          \<and> remove_links (Iterable [Str ''L1'', Obj L1, Str ''L2'']) net_L1_L2 = Raised e net_L2_left"
    using T h0 h2 h3 by auto
  have c: "remove_nodes (Iterable [7, 8]) net_L2_left = Done net_L2_left"
    using T h4 by simp
  show ?thesis
    using h0 h1 h2 h3 h4 a b c by blast
qed

section \<open>Link metrics of the network\<close>

subsection \<open>Interference sums the other uplinks\<close>

lemma net_L1_L2_built: "add_links (Iterable [L1, L2]) (Network ''Network'') = Done net_L1_L2"
  by (simp add: add_link_def add_node_def dl_append_def ul_append_def Network_def
        L1_def L2_def net_L1_L2_def)

lemma signal_power_object [simp]:
  "signal_power d P self (Some (Single (Obj u))) False = Inr (Num (ch_signal_power (P u)))"
  by simp

lemma interference_loop_sum:
  "interference_loop d P self link us acc
     = Inr (acc + sum_list (map (\<lambda>u. ch_signal_power (P u)) (filter (\<lambda>u. u \<noteq> link) us)))"
  by (induction us arbitrary: acc) (simp_all add: add.assoc)

lemma registered_receiver:
  assumes "reachable self" "(k, l) \<in> set (links self)"
  shows "\<exists>a. map_of (connections self) (rx l) = Some a"
proof -
  have "endpoints_present self"
    using reachable_graph_inv [OF assms(1)] by (simp add: graph_inv_def)
  moreover have "l \<in> set (map snd (links self))"
    using assms(2) by force
  ultimately have "rx l \<in> fst ` set (connections self)"
    unfolding endpoints_present_def by blast
  then have "map_of (connections self) (rx l) \<noteq> None"
    by (simp add: map_of_eq_None_iff)
  then show ?thesis by blast
qed

text \<open>
  C3. For every network built through the public methods and every link \<open>l\<close> registered
  in it, \<open>interference(l, db=False)\<close> returns the sum of the linear signal power of the
  uplink channels of \<open>l\<close>'s receiver other than \<open>l\<close> itself. Hence, for any other link
  \<open>l2\<close> in that uplink list, the result is the signal power of \<open>l2\<close> plus the sum over
  the remaining other uplinks, and the signal power of \<open>l\<close> is no summand.
\<close>

theorem interference_sums_other_uplinks:
  assumes "reachable self" and "(k, l) \<in> set (links self)"
  shows "\<exists>a. map_of (connections self) (rx l) = Some a
     \<and> interference d P self (Some (Single (Obj l))) False
         = Inr (Num (sum_list (map (\<lambda>u. ch_signal_power (P u)) (filter (\<lambda>u. u \<noteq> l) (ul a)))))
     \<and> (\<forall>l2 \<in> set (ul a). l2 \<noteq> l \<longrightarrow>
          interference d P self (Some (Single (Obj l))) False
            = Inr (Num (ch_signal_power (P l2)
                 + sum_list (map (\<lambda>u. ch_signal_power (P u))
                      (remove1 l2 (filter (\<lambda>u. u \<noteq> l) (ul a)))))))"
proof -
  obtain a where a: "map_of (connections self) (rx l) = Some a"
    using registered_receiver [OF assms] by blast
  let ?others = "filter (\<lambda>u. u \<noteq> l) (ul a)"
  let ?sp = "\<lambda>u. ch_signal_power (P u)"
  have i: "interference d P self (Some (Single (Obj l))) False = Inr (Num (sum_list (map ?sp ?others)))"
    using a by (simp add: interference_loop_sum)
  have "sum_list (map ?sp ?others) = ?sp l2 + sum_list (map ?sp (remove1 l2 ?others))"
    if "l2 \<in> set (ul a)" "l2 \<noteq> l" for l2
  proof -
    have "l2 \<in> set ?others" using that by simp
    then show ?thesis by (simp add: sum_list_map_remove1)
  qed
  with a i show ?thesis by auto
qed

lemma reachable_net_L1_L2: "reachable net_L1_L2"
  using reachable.add_links [OF reachable.init, of "Iterable [L1, L2]" "''Network''"]
  by (simp only: net_L1_L2_built state_of.simps)

theorem interference_sums_other_uplinks_witness:
  "reachable net_L1_L2 \<and> (Str ''L1'', L1) \<in> set (links net_L1_L2)
   \<and> map_of (connections net_L1_L2) (rx L1) = Some \<lparr>dl = [], ul = [L1, L2]\<rparr>
   \<and> interference 1000 props_example net_L1_L2 (Some (Single (Obj L1))) False = Inr (Num 100)
   \<and> ch_signal_power (props_example L2) = 100 \<and> ch_signal_power (props_example L1) = 1"
proof -
  have m: "(Str ''L1'', L1) \<in> set (links net_L1_L2)"
    by (simp add: net_L1_L2_def)
  have c: "map_of (connections net_L1_L2) (rx L1) = Some \<lparr>dl = [], ul = [L1, L2]\<rparr>"
    by (simp add: net_L1_L2_def L1_def)
  have p: "ch_signal_power (props_example L2) = 100" "ch_signal_power (props_example L1) = 1"
    "L2 \<noteq> L1"
    by (simp_all add: props_example_def props_strong_def props_weak_def L1_def L2_def)
  show ?thesis
    using interference_sums_other_uplinks [OF reachable_net_L1_L2 m, of 1000 props_example]
      reachable_net_L1_L2 m c p
    by auto
qed

subsection \<open>Dispatch on the form of the argument\<close>

lemma snr_of_name_diverges:
  "s \<noteq> [] \<Longrightarrow> snr d P self (Some (Single (Str s))) db = Inl RecursionError"
proof (induction d arbitrary: s)
  case 0
  show ?case by simp
next
  case (Suc d)
  then obtain c cs where s: "s = c # cs" by (cases s) auto
  have "snr d P self (Some (Single (Str [c]))) db = Inl RecursionError"
    by (rule Suc.IH) simp
  then show ?case
    by (simp add: s list_comp_def)
qed

text \<open>
  C7 (the code departs from the claim). On the network with the single link \<open>L1\<close>, whose
  beamforming gain is 0 dB, signal power 1, noise power after beamforming 1/10 and SNR
  10 (10 dB): \<open>bf_gain\<close>, \<open>signal_power\<close> and \<open>bf_noise_power\<close> called with the list
  \<open>[L1]\<close> return the SNR of \<open>L1\<close> under the key \<open>L1\<close>, where the same accessors called
  with \<open>L1\<close>, with its name or with no argument return their own metric; and \<open>snr\<close>
  called with the name of \<open>L1\<close> raises RecursionError, where called with \<open>L1\<close> it
  returns the SNR.
\<close>

theorem iterable_dispatch_computes_snr:
  "bf_gain (Suc d) props_example net_L1 (Some (Iterable [Obj L1])) True = Inr (Dict [(Obj L1, Num 10)])
   \<and> bf_gain (Suc d) props_example net_L1 (Some (Single (Obj L1))) True = Inr (Num 0)
   \<and> bf_gain (Suc d) props_example net_L1 (Some (Single (Str ''L1''))) True = Inr (Num 0)
   \<and> bf_gain (Suc d) props_example net_L1 None True = Inr (Dict [(Obj L1, Num 0)])
   \<and> signal_power (Suc d) props_example net_L1 (Some (Iterable [Obj L1])) False = Inr (Dict [(Obj L1, Num 10)])
   \<and> signal_power (Suc d) props_example net_L1 (Some (Single (Obj L1))) False = Inr (Num 1)
   \<and> bf_noise_power (Suc d) props_example net_L1 (Some (Iterable [Obj L1])) False = Inr (Dict [(Obj L1, Num 10)])
   \<and> bf_noise_power (Suc d) props_example net_L1 (Some (Single (Obj L1))) False = Inr (Num (1 / 10))
   \<and> snr (Suc d) props_example net_L1 (Some (Single (Str ''L1''))) True = Inl RecursionError
   \<and> snr (Suc d) props_example net_L1 (Some (Single (Obj L1))) True = Inr (Num 10)"
proof -
  have p: "props_example L1 = props_weak"
    by (simp add: props_example_def L1_def L2_def)
  have l: "map_of (links net_L1) (Str ''L1'') = Some L1" "links net_L1 = [(Str ''L1'', L1)]"
    by (simp_all add: net_L1_def)
  have r: "snr (Suc d) props_example net_L1 (Some (Single (Str ''L1''))) True = Inl RecursionError"
    by (rule snr_of_name_diverges) simp
  show ?thesis
    using r by (simp add: dict_comp_def p l props_weak_def)
qed

subsection \<open>The INR upper bound never returns\<close>

text \<open>
  C9 (the code departs from the claim). On the network where \<open>L1\<close> and \<open>L2\<close> share the
  receiver node 1, \<open>inr_upper_bound\<close> of \<open>L1\<close>, given as object or by name, in dB or
  not, raises AttributeError after its loop, whatever the metrics and the arrays: it
  returns no bound.
\<close>

theorem inr_upper_bound_raises:
  "map_of (connections net_L1_L2) (rx L1) = Some \<lparr>dl = [], ul = [L1, L2]\<rparr>
   \<and> inr_upper_bound P A net_L1_L2 (Some (Single (Obj L1))) False = Inl AttributeError
   \<and> inr_upper_bound P A net_L1_L2 (Some (Single (Str ''L1''))) True = Inl AttributeError"
  by (simp add: net_L1_L2_def L1_def L2_def noise_power_lin_def)

section \<open>The ray-cluster channel\<close>

subsection \<open>Entries of the specification's matrix\<close>










lemma response_data_single:
  assumes "length dx = n" "length dy = n" "length dz = n" "i < length az" "k < n"
  shows "response_data dx dy dz az [0] ! (i * n + k) = response_data dx dy dz [az ! i] [0] ! k"
  using response_data_nth [OF assms(1-3) assms(4), of 0 "[0]" k]
        response_data_nth [OF assms(1-3), of 0 "[az ! i]" 0 "[0]" k] assms(5)
  by simp

lemma response_vector_data:
  assumes "coordinates arr = c0 # cs"
  shows "response_vector arr a
         = response_data (map (\<lambda>c. fst c - fst c0) (coordinates arr))
                         (map (\<lambda>c. fst (snd c) - fst (snd c0)) (coordinates arr))
                         (map (\<lambda>c. snd (snd c) - snd (snd c0)) (coordinates arr)) [a] [0]"
  using get_array_response_data [OF assms, of "[a]" "[0]" None False]
  by (auto simp: response_vector_def)


text \<open>The responses of all rays, reshaped to the shape of the angles.\<close>

lemma reshaped_response:
  assumes sh: "shape ang = [b, n]" "length (data ang) = b * n" and pos: "0 < b" "0 < n"
    and c: "coordinates arr = c0 # cs"
  shows "\<exists>x. bind_result (get_array_response (data ang) [0] dev False arr) (reshape_like (shape ang)) = Inr x
     \<and> shape x = [b, n, length (coordinates arr)]
     \<and> (\<forall>i < b * n. \<forall>k < length (coordinates arr).
           data x ! (i * length (coordinates arr) + k) = response_vector arr (data ang ! i) ! k)"
proof -
  let ?N = "length (coordinates arr)"
  let ?dx = "map (\<lambda>c. fst c - fst c0) (coordinates arr)"
  let ?dy = "map (\<lambda>c. fst (snd c) - fst (snd c0)) (coordinates arr)"
  let ?dz = "map (\<lambda>c. snd (snd c) - snd (snd c0)) (coordinates arr)"
  obtain y where y: "get_array_response (data ang) [0] dev False arr = Inr y"
    and d: "data y = response_data ?dx ?dy ?dz (data ang) [0]"
    using get_array_response_data [OF c] by blast
  have len: "length (data y) = b * n * ?N"
    by (simp add: d response_data_length [where n = ?N] sh)
  have m: "prod_list (shape ang) = b * n" by (simp add: sh)
  have bn: "0 < b * n" using pos by simp
  have r: "reshape_like (shape ang) y = Inr (y\<lparr>shape := [b, n, ?N]\<rparr>)"
    using bn by (simp add: reshape_like_def m len sh) 
  have e: "data y ! (i * ?N + k) = response_vector arr (data ang ! i) ! k"
    if "i < b * n" "k < ?N" for i k
    using response_data_single [of ?dx ?N ?dy ?dz i "data ang" k] that
    by (simp add: d sh response_vector_data [OF c])
  show ?thesis
    using y r e by simp
qed




subsection \<open>Ray counts that are no numpy vector\<close>

text \<open>
  An \<open>int\<close> is spread over the clusters into a numpy vector, whose total is the product.
  A list of counts is stored as it is, and \<open>generate_channel_matrix\<close> then raises
  AttributeError at its last statement, on operands for which it returns a matrix when
  the counts are a vector.
\<close>

lemma total_n_rays_of_int:
  "total_n_rays (set_n_rays (IntCount k) self) = Inr (n_clusters self * k)"
  by (simp add: total_n_rays_def set_n_rays_def sum_list_replicate)

lemma total_n_rays_of_list:
  "total_n_rays (set_n_rays (Counts (Sequence counts)) self) = Inl AttributeError"
  by (simp add: total_n_rays_def set_n_rays_def)

lemma generate_channel_matrix_list_counts:
  assumes aoa: "shape aoa = [b, n]" "length (data aoa) = b * n"
    and aod: "shape aod = [b, n]" "length (data aod) = b * n"
    and gain: "shape gain = [b, n]"
    and rx: "coordinates rx_array = cr # crs" and tx: "coordinates tx_array = ct # cts"
    and pos: "0 < b" "0 < n"
    and counts: "n_rays self = Sequence counts"
  shows "generate_channel_matrix self tx_array rx_array aoa aod gain = Inl AttributeError"
proof -
  obtain arx where arx: "bind_result (get_array_response (data aoa) [0] (device self) False rx_array)
                           (reshape_like (shape aoa)) = Inr arx"
    and arx_shape: "shape arx = [b, n, length (coordinates rx_array)]"
    using reshaped_response [OF aoa pos rx] by blast
  obtain atx where atx: "bind_result (get_array_response (data aod) [0] (device self) False tx_array)
                           (reshape_like (shape aod)) = Inr atx"
    and atx_shape: "shape atx = [b, n, length (coordinates tx_array)]"
    using reshaped_response [OF aod pos tx] by blast
  obtain y1 where y1: "get_array_response (data aoa) [0] (device self) False rx_array = Inr y1"
    and r1: "reshape_like (shape aoa) y1 = Inr arx"
    using arx by (cases "get_array_response (data aoa) [0] (device self) False rx_array") auto
  obtain y2 where y2: "get_array_response (data aod) [0] (device self) False tx_array = Inr y2"
    and r2: "reshape_like (shape aod) y2 = Inr atx"
    using atx by (cases "get_array_response (data aod) [0] (device self) False tx_array") auto
  obtain E where "einsum_bn_bnr_bnt gain arx (atx\<lparr>data := map cnj (data atx)\<rparr>) = Inr E"
    by (simp add: einsum_bn_bnr_bnt_def gain arx_shape atx_shape Let_def)
  then show ?thesis
    unfolding generate_channel_matrix_def
    by (simp add: y1 y2 r1 r2 total_n_rays_def counts)
qed

section \<open>Realizing channels and moving a node\<close>

subsection \<open>The array is translated to the new location\<close>

lemma sum_list_shift:
  "sum_list (map (\<lambda>c. f c + (d::real)) cs) = sum_list (map f cs) + real (length cs) * d"
  by (induction cs) (simp_all add: algebra_simps)

lemma mean_shift:
  assumes "cs \<noteq> []"
  shows "sum_list (map (\<lambda>c. f c + (l - sum_list (map f cs) / real (length cs))) cs) / real (length cs) = (l::real)"
proof -
  have n: "real (length cs) \<noteq> 0" using assms by simp
  show ?thesis
    unfolding sum_list_shift using n by (simp add: field_simps)
qed

lemma location_set_location:
  assumes "coordinates arr \<noteq> []" and "coordinates_dtype arr = Float64"
  shows "\<exists>arr'. set_location loc arr = Done arr' \<and> location arr' = loc"
proof -
  let ?cs = "coordinates arr"
  obtain lx ly lz where loc: "loc = (lx, ly, lz)" by (cases loc) auto
  have x: "sum_list (map (\<lambda>c. fst c + (lx - sum_list (map fst ?cs) / real (length ?cs))) ?cs)
             / real (length ?cs) = lx"
    using mean_shift [OF assms(1), of fst lx] .
  have y: "sum_list (map (\<lambda>c. fst (snd c) + (ly - sum_list (map (\<lambda>c. fst (snd c)) ?cs) / real (length ?cs))) ?cs)
             / real (length ?cs) = ly"
    using mean_shift [OF assms(1), of "\<lambda>c. fst (snd c)" ly] .
  have z: "sum_list (map (\<lambda>c. snd (snd c) + (lz - sum_list (map (\<lambda>c. snd (snd c)) ?cs) / real (length ?cs))) ?cs)
             / real (length ?cs) = lz"
    using mean_shift [OF assms(1), of "\<lambda>c. snd (snd c)" lz] .
  show ?thesis
    using x y z assms(2)
    by (simp add: location_def set_location_def loc Let_def comp_def case_prod_beta)
qed

lemma set_location_float:
  "coordinates_dtype arr = Float64 \<Longrightarrow> \<exists>arr'. set_location loc arr = Done arr'"
  by (simp add: set_location_def Let_def)

lemma set_location_int:
  "coordinates_dtype arr = Int64 \<Longrightarrow> set_location loc arr = Raised TypeError arr"
  by (simp add: set_location_def Let_def)

subsection \<open>Which channels a move re-realizes\<close>

lemma realize_link_net [simp]: "net (state_of (realize_link realize l w)) = net w"
  by (cases "realize (arrays w) l (chans w l)") (simp_all add: realize_link_def)

lemma realize_link_arrays [simp]: "arrays (state_of (realize_link realize l w)) = arrays w"
  by (cases "realize (arrays w) l (chans w l)") (simp_all add: realize_link_def)

lemma realize_link_chans:
  "k \<noteq> l \<Longrightarrow> chans (state_of (realize_link realize l w)) k = chans w k"
  by (cases "realize (arrays w) l (chans w l)") (simp_all add: realize_link_def)

lemma realize_links_frame:
  "net (state_of (for_each (realize_link realize) ls w)) = net w
   \<and> arrays (state_of (for_each (realize_link realize) ls w)) = arrays w
   \<and> (\<forall>k. k \<notin> set ls \<longrightarrow> chans (state_of (for_each (realize_link realize) ls w)) k = chans w k)"
proof (induction ls arbitrary: w)
  case Nil
  show ?case by simp
next
  case (Cons l ls)
  let ?w1 = "state_of (realize_link realize l w)"
  have step: "net ?w1 = net w" "arrays ?w1 = arrays w"
    "\<And>k. k \<noteq> l \<Longrightarrow> chans ?w1 k = chans w k"
    by (simp_all add: realize_link_chans)
  show ?case
  proof (cases "realize_link realize l w")
    case (Done w1)
    then have w1: "?w1 = w1" by simp
    have "for_each (realize_link realize) (l # ls) w = for_each (realize_link realize) ls w1"
      by (simp add: Done)
    then show ?thesis
      using Cons.IH [of w1] step unfolding w1 by auto
  next
    case (Raised e w1)
    then have w1: "?w1 = w1" by simp
    have "for_each (realize_link realize) (l # ls) w = Raised e w1"
      by (simp add: Raised)
    then show ?thesis
      using step unfolding w1 by auto
  qed
qed

lemma and_then_same_on_done:
  assumes "\<And>s. r = Done s \<Longrightarrow> f s = g s"
  shows "and_then r f = and_then r g"
  using assms by (cases r) auto

lemma move_node_unfolded:
  assumes "lookup_node w node = Some n" and "map_of (connections (net w)) n = Some a"
    and "set_location loc (arrays w n) = Done arr"
  shows "move_node realize node loc w
         = for_each (realize_link realize) (dl a @ ul a) (w\<lparr>arrays := (arrays w)(n := arr)\<rparr>)"
proof -
  let ?w1 = "w\<lparr>arrays := (arrays w)(n := arr)\<rparr>"
  let ?R = "realize_link realize"
  have a1: "map_of (connections (net ?w1)) n = Some a"
    using assms(2) by simp
  have second: "(case map_of (connections (net w2)) n of
                   None \<Rightarrow> Raised KeyError w2
                 | Some a2 \<Rightarrow> for_each ?R (ul a2) w2) = for_each ?R (ul a) w2"
    if "for_each ?R (dl a) ?w1 = Done w2" for w2
  proof -
    have "net w2 = net ?w1"
      using realize_links_frame [of realize "dl a" ?w1] that by simp
    then show ?thesis using a1 by simp
  qed
  have "move_node realize node loc w
        = and_then (for_each ?R (dl a) ?w1)
            (\<lambda>w2. case map_of (connections (net w2)) n of
                     None \<Rightarrow> Raised KeyError w2
                   | Some a2 \<Rightarrow> for_each ?R (ul a2) w2)"
    using assms(1,3) a1 by (simp add: move_node_def Let_def)
  also have "\<dots> = and_then (for_each ?R (dl a) ?w1) (for_each ?R (ul a))"
    by (rule and_then_same_on_done) (rule second)
  also have "\<dots> = for_each ?R (dl a @ ul a) ?w1"
    by (simp add: for_each_append)
  finally show ?thesis .
qed

text \<open>
  When the coordinates of the node's array are floating-point numbers, \<open>move_node\<close> does
  what is said of it. For every network built through the public methods and every node
  \<open>n\<close> of it (given as object or by name), it sets the node's location and then calls
  \<open>realize\<close> on the channels of the node's downlink list and then of its uplink list, and
  on nothing else: the graph is unchanged, only the node's array changes among the arrays
  and (when it has an element) its center is the new location, the state of every channel
  outside those two lists is what it was, and in particular the stored matrix of every
  link that has the node neither as transmitter nor as receiver is unchanged. This holds
  whether all calls of \<open>realize\<close> return or one of them raises.
\<close>

lemma move_node_float_coordinates:
  assumes "reachable (net w)"
    and "lookup_node w node = Some n"
    and "map_of (connections (net w)) n = Some a"
    and "coordinates_dtype (arrays w n) = Float64"
  shows "\<exists>arr. set_location loc (arrays w n) = Done arr
     \<and> move_node realize node loc w
           = for_each (realize_link realize) (dl a @ ul a) (w\<lparr>arrays := (arrays w)(n := arr)\<rparr>)
     \<and> net (state_of (move_node realize node loc w)) = net w
     \<and> arrays (state_of (move_node realize node loc w)) = (arrays w)(n := arr)
     \<and> (coordinates (arrays w n) \<noteq> []
          \<longrightarrow> location (arrays (state_of (move_node realize node loc w)) n) = loc)
     \<and> (\<forall>l. l \<notin> set (dl a) \<and> l \<notin> set (ul a)
          \<longrightarrow> chans (state_of (move_node realize node loc w)) l = chans w l)
     \<and> (\<forall>l. tx l \<noteq> n \<and> rx l \<noteq> n
          \<longrightarrow> chan_H (chans (state_of (move_node realize node loc w)) l) = chan_H (chans w l))"
proof -
  obtain arr where arr: "set_location loc (arrays w n) = Done arr"
    using set_location_float [OF assms(4)] by blast
  let ?w1 = "w\<lparr>arrays := (arrays w)(n := arr)\<rparr>"
  let ?w' = "state_of (move_node realize node loc w)"
  have eq: "move_node realize node loc w = for_each (realize_link realize) (dl a @ ul a) ?w1"
    using move_node_unfolded [OF assms(2,3) arr] .
  have frame: "net ?w' = net ?w1" "arrays ?w' = arrays ?w1"
    "\<forall>k. k \<notin> set (dl a @ ul a) \<longrightarrow> chans ?w' k = chans ?w1 k"
    using realize_links_frame [of realize "dl a @ ul a" ?w1] unfolding eq by blast+
  have sound: "adj_sound (net w)"
    using reachable_graph_inv [OF assms(1)] by (simp add: graph_inv_def)
  have untouched: "chans ?w' l = chans w l" if "l \<notin> set (dl a) \<and> l \<notin> set (ul a)" for l
    using frame(3) that by simp
  have foreign: "l \<notin> set (dl a) \<and> l \<notin> set (ul a)" if "tx l \<noteq> n \<and> rx l \<noteq> n" for l
    using adj_sound_dlD [OF sound assms(3)] adj_sound_ulD [OF sound assms(3)] that by blast
  have moved: "location (arrays ?w' n) = loc" if "coordinates (arrays w n) \<noteq> []"
    using location_set_location [OF that assms(4), of loc] arr by (simp add: frame(2))
  show ?thesis
    using arr eq frame(1,2) untouched foreign moved by simp
qed

subsection \<open>Moving an array of integer coordinates\<close>

lemma move_node_int_coordinates:
  assumes "lookup_node w node = Some n" and "coordinates_dtype (arrays w n) = Int64"
  shows "move_node realize node loc w = Raised TypeError w"
  using assms by (simp add: move_node_def set_location_int)

text \<open>
  C6 fails on an array built from integer coordinates. In the network of \<open>L1\<close> and \<open>L2\<close>,
  built through \<open>add_links\<close>, let node 0, the transmitter of \<open>L1\<close>, be
  \<open>AntennaArray(2, [[0, 0, 0], [1, 0, 0]])\<close>, whose center is \<open>(1/2, 0, 0)\<close>. Then
  \<open>move_node(node 0, [1, 1, 1])\<close> raises TypeError, whatever \<open>realize\<close> does: the array is
  not translated, its center stays where it was, and \<open>realize\<close> is called on no channel,
  so that \<open>L1\<close>, which is in the node's downlink list, keeps the state it had.
\<close>

theorem move_node_raises_on_integer_coordinates:
  "reachable (net world_int)
   \<and> lookup_node world_int (NodeObj 0) = Some 0
   \<and> map_of (connections (net world_int)) 0 = Some \<lparr>dl = [L1], ul = []\<rparr>
   \<and> location (arrays world_int 0) = (1 / 2, 0, 0)
   \<and> move_node realize (NodeObj 0) (1, 1, 1) world_int = Raised TypeError world_int
   \<and> location (arrays (state_of (move_node realize (NodeObj 0) (1, 1, 1) world_int)) 0) \<noteq> (1, 1, 1)
   \<and> chans (state_of (move_node realize (NodeObj 0) (1, 1, 1) world_int)) L1 = chans world_int L1"
proof -
  have r: "reachable (net world_int)"
    using reachable_net_L1_L2 by (simp add: world_int_def)
  have a: "map_of (connections (net world_int)) 0 = Some \<lparr>dl = [L1], ul = []\<rparr>"
    by (simp add: world_int_def net_L1_L2_def)
  have c: "location (arrays world_int 0) = (1 / 2, 0, 0)"
    by (simp add: world_int_def array_int_def location_def)
  have m: "move_node realize (NodeObj 0) (1, 1, 1) world_int = Raised TypeError world_int"
    by (rule move_node_int_coordinates [of world_int "NodeObj 0" 0])
       (simp_all add: world_int_def array_int_def)
  show ?thesis
    using r a c m by simp
qed

end
